theory Spec2Isabelle
  imports Complex_Main "HOL-Library.Sublist" "HOL-Library.Word"
begin

section \<open>Python strings\<close>

text \<open>
  A Python \<open>str\<close> is modelled as an Isabelle \<open>string\<close>: a list of characters, each a
  code point in the range 0..255.  The character classes below are Python's classes
  restricted to that range.
\<close>

text \<open>\<open>sub in s\<close> for two strings: \<open>sub\<close> occurs as a contiguous run inside \<open>s\<close>.\<close>

fun py_in :: "string \<Rightarrow> string \<Rightarrow> bool" where
  "py_in sub [] = (sub = [])"
| "py_in sub (c # cs) = (prefix sub (c # cs) \<or> py_in sub cs)"

text \<open>\<open>any(kw in query for kw in keywords)\<close>.\<close>

definition any_kw :: "string list \<Rightarrow> string \<Rightarrow> bool" where
  "any_kw keywords query = list_ex (\<lambda>kw. py_in kw query) keywords"

text \<open>\<open>str.isspace\<close> on one character: the white space that \<open>str.split()\<close> and
  \<open>str.strip()\<close> remove.\<close>

definition py_isspace :: "char \<Rightarrow> bool" where
  "py_isspace c = (c \<in> set [CHR 0x09, CHR 0x0A, CHR 0x0B, CHR 0x0C, CHR 0x0D,
                              CHR 0x1C, CHR 0x1D, CHR 0x1E, CHR 0x1F, CHR 0x20,
                              CHR 0x85, CHR 0xA0])"

text \<open>\<open>s.split()\<close>: the maximal runs of characters that are not white space.  The first
  argument is the word being collected.\<close>

fun split_acc :: "string \<Rightarrow> string \<Rightarrow> string list" where
  "split_acc w [] = (if w = [] then [] else [w])"
| "split_acc w (c # cs) =
     (if py_isspace c then (if w = [] then split_acc [] cs else w # split_acc [] cs)
      else split_acc (w @ [c]) cs)"

definition py_split :: "string \<Rightarrow> string list" where
  "py_split s = split_acc [] s"

section \<open>Store match score\<close>

text \<open>\<open>AnalyticsAgent._calculate_store_match_score\<close>.\<close>

definition common_words :: "string list" where
  "common_words = [''laundry'', ''toko'', ''ruang'', ''outlet'', ''cabang'', ''store'']"

definition store_words :: "string \<Rightarrow> string list" where
  "store_words store_name = filter (\<lambda>w. w \<noteq> [] \<and> length w > 1) (py_split store_name)"

definition unique_words :: "string \<Rightarrow> string list" where
  "unique_words store_name = filter (\<lambda>w. w \<notin> set common_words) (store_words store_name)"

text \<open>The body of the \<open>for word in store_words\<close> loop, \<open>score\<close> being the running total.\<close>

fun score_words :: "string list \<Rightarrow> string list \<Rightarrow> string \<Rightarrow> int \<Rightarrow> int" where
  "score_words uniq [] query score = score"
| "score_words uniq (word # ws) query score =
     score_words uniq ws query
       (if py_in word query
        then (if word \<in> set uniq then score + 1 + 2 else score + 1)
        else score)"

definition calculate_store_match_score :: "string \<Rightarrow> string \<Rightarrow> int" where
  "calculate_store_match_score store_name query =
     (let score = score_words (unique_words store_name) (store_words store_name) query 0
      in if py_in store_name query then score + 5 else score)"

section \<open>Keyword stage of intent classification\<close>

text \<open>JSON values, as \<open>json.loads\<close> returns them and as the slots of a classification
  hold them; \<open>JNull\<close> is Python's \<open>None\<close>.  An object is the list of its keys and values.\<close>

datatype json = JNull | JBool bool | JNum rat | JStr string | JArr "json list"
  | JObj "(string \<times> json) list"

text \<open>The dictionary with the keys \<open>intent\<close>, \<open>store_name\<close>, \<open>phone_number\<close> and
  \<open>period\<close> that both classification stages return.\<close>

record classification =
  cl_intent :: json
  cl_store_name :: json
  cl_phone_number :: json
  cl_period :: json

text \<open>\<open>\d\<close> of the \<open>re\<close> module on the code points 0..255.\<close>

definition py_isdigit :: "char \<Rightarrow> bool" where
  "py_isdigit c = (c \<in> set ''0123456789'')"

text \<open>\<open>re.search(r'(08\d{8,12})', s)\<close>: \<open>match_08\<close> is the greedy match anchored at the
  start of its argument, \<open>search_08\<close> tries every start from left to right.\<close>

definition match_08 :: "string \<Rightarrow> string option" where
  "match_08 s =
     (case s of
        c0 # c1 # rest \<Rightarrow>
          (if c0 = CHR ''0'' \<and> c1 = CHR ''8'' then
             (let ds = takeWhile py_isdigit (take 12 rest)
              in if length ds \<ge> 8 then Some (c0 # c1 # ds) else None)
           else None)
      | _ \<Rightarrow> None)"

fun search_08 :: "string \<Rightarrow> string option" where
  "search_08 [] = None"
| "search_08 (c # cs) =
     (case match_08 (c # cs) of Some m \<Rightarrow> Some m | None \<Rightarrow> search_08 cs)"

definition is_daily_revenue_query :: "string \<Rightarrow> bool" where
  "is_daily_revenue_query query =
     any_kw [''hari ini'', ''harian'', ''today'', ''daily'', ''kemarin'', ''kemaren'',
             ''yesterday''] query"

definition is_weekly_query :: "string \<Rightarrow> bool" where
  "is_weekly_query query =
     any_kw [''minggu'', ''mingguan'', ''weekly'', ''week'', ''seminggu''] query"

definition is_monthly_query :: "string \<Rightarrow> bool" where
  "is_monthly_query query = any_kw [''bulan'', ''bulanan'', ''monthly'', ''month''] query"

definition is_comparison_query :: "string \<Rightarrow> bool" where
  "is_comparison_query query =
     any_kw [''banding'', ''compare'', ''vs'', ''dibanding'', ''perbandingan''] query"

definition is_popular_services_query :: "string \<Rightarrow> bool" where
  "is_popular_services_query query =
     any_kw [''populer'', ''terlaris'', ''top'', ''favorit'', ''popular'', ''best''] query"

definition is_peak_hours_query :: "string \<Rightarrow> bool" where
  "is_peak_hours_query query =
     any_kw [''jam sibuk'', ''peak'', ''tersibuk'', ''ramai'', ''busy''] query"

definition is_churned_customers_query :: "string \<Rightarrow> bool" where
  "is_churned_customers_query query =
     any_kw [''churn'', ''hilang'', ''sekali order'', ''tidak kembali''] query"

definition is_inactive_customers_query :: "string \<Rightarrow> bool" where
  "is_inactive_customers_query query =
     any_kw [''tidak aktif'', ''inactive'', ''lama tidak'', ''dormant''] query"

definition is_store_list_query :: "string \<Rightarrow> bool" where
  "is_store_list_query query =
     any_kw [''daftar toko'', ''list store'', ''toko apa'', ''store apa'', ''cabang'',
             ''semua toko'', ''all stores'', ''toko tersedia'', ''available stores'',
             ''lihat toko'', ''tampilkan toko'', ''show stores'', ''toko mana'',
             ''outlet'', ''lokasi toko'', ''store locations''] query"

definition is_store_detail_query :: "string \<Rightarrow> bool" where
  "is_store_detail_query query =
     any_kw [''info toko'', ''detail toko'', ''store info'', ''tentang toko'',
             ''alamat toko''] query"

definition is_points_query :: "string \<Rightarrow> bool" where
  "is_points_query query =
     any_kw [''poin'', ''loyalti'', ''loyalty'', ''reward'', ''point'', ''points'',
             ''hadiah'', ''bonus''] query"

definition is_points_info_query :: "string \<Rightarrow> bool" where
  "is_points_info_query query =
     any_kw [''informasi poin'', ''info poin'', ''tentang poin'', ''apa itu poin'',
             ''penjelasan poin'', ''sistem poin'', ''points info'', ''about points''] query"

definition is_points_redeem_query :: "string \<Rightarrow> bool" where
  "is_points_redeem_query query =
     any_kw [''tukar poin'', ''tuker poin'', ''redeem'', ''pakai poin'', ''gunakan poin'',
             ''cara tukar'', ''cara pakai poin'', ''cara gunakan poin'', ''menukar poin'',
             ''gimana tukar'', ''gimana cara tukar'', ''bagaimana tukar''] query"

definition is_points_earn_query :: "string \<Rightarrow> bool" where
  "is_points_earn_query query =
     any_kw [''cara dapat poin'', ''cara mendapat poin'', ''cara kumpul poin'',
             ''gimana dapat poin'', ''bagaimana dapat poin'', ''earn points'',
             ''dapet poin'', ''dapat poin'', ''kumpulkan poin''] query"

definition is_points_summary_query :: "string \<Rightarrow> bool" where
  "is_points_summary_query query =
     any_kw [''ringkasan poin'', ''total poin'', ''statistik poin'', ''points summary'',
             ''semua poin''] query"

definition extract_period :: "string \<Rightarrow> string" where
  "extract_period query =
     (if py_in ''bulan'' query \<or> py_in ''month'' query then ''month'' else ''week'')"

text \<open>\<open>AnalyticsAgent._classify_intent_with_keywords\<close>: the phone number is extracted
  first, then the \<open>if\<close>/\<open>elif\<close> chain sets the intent.\<close>

definition classify_intent_with_keywords :: "string \<Rightarrow> classification" where
  "classify_intent_with_keywords query_lower =
     (let result = \<lparr>cl_intent = JStr ''general'', cl_store_name = JNull,
                         cl_phone_number = JNull, cl_period = JNull\<rparr>;
          result = (case search_08 query_lower of
                      Some m \<Rightarrow> result\<lparr>cl_phone_number := JStr m\<rparr>
                    | None \<Rightarrow> result)
      in if is_comparison_query query_lower then
           result\<lparr>cl_intent := JStr ''compare_periods'',
                   cl_period := JStr (extract_period query_lower)\<rparr>
         else if is_store_list_query query_lower then
           result\<lparr>cl_intent := JStr ''store_list''\<rparr>
         else if is_store_detail_query query_lower then
           result\<lparr>cl_intent := JStr ''store_detail''\<rparr>
         else if is_daily_revenue_query query_lower then
           result\<lparr>cl_intent := JStr ''daily_revenue''\<rparr>
         else if is_weekly_query query_lower then
           result\<lparr>cl_intent := JStr ''weekly_revenue''\<rparr>
         else if is_monthly_query query_lower then
           result\<lparr>cl_intent := JStr ''monthly_revenue''\<rparr>
         else if is_popular_services_query query_lower then
           result\<lparr>cl_intent := JStr ''popular_services''\<rparr>
         else if is_peak_hours_query query_lower then
           result\<lparr>cl_intent := JStr ''peak_hours''\<rparr>
         else if is_churned_customers_query query_lower then
           result\<lparr>cl_intent := JStr ''churned_customers''\<rparr>
         else if is_inactive_customers_query query_lower then
           result\<lparr>cl_intent := JStr ''inactive_customers''\<rparr>
         else if is_points_summary_query query_lower then
           result\<lparr>cl_intent := JStr ''points_summary''\<rparr>
         else if is_points_redeem_query query_lower then
           result\<lparr>cl_intent := JStr ''points_redeem''\<rparr>
         else if is_points_earn_query query_lower then
           result\<lparr>cl_intent := JStr ''points_earn''\<rparr>
         else if is_points_info_query query_lower then
           result\<lparr>cl_intent := JStr ''points_info''\<rparr>
         else if is_points_query query_lower then
           result\<lparr>cl_intent := JStr ''points_check''\<rparr>
         else result)"

text \<open>The priority order as the specification lists it: each category's predicate with
  the intent it stands for, highest priority first.\<close>

definition keyword_priority :: "((string \<Rightarrow> bool) \<times> string) list" where
  "keyword_priority =
     [(is_comparison_query, ''compare_periods''),
      (is_store_list_query, ''store_list''),
      (is_store_detail_query, ''store_detail''),
      (is_daily_revenue_query, ''daily_revenue''),
      (is_weekly_query, ''weekly_revenue''),
      (is_monthly_query, ''monthly_revenue''),
      (is_popular_services_query, ''popular_services''),
      (is_peak_hours_query, ''peak_hours''),
      (is_churned_customers_query, ''churned_customers''),
      (is_inactive_customers_query, ''inactive_customers''),
      (is_points_summary_query, ''points_summary''),
      (is_points_redeem_query, ''points_redeem''),
      (is_points_earn_query, ''points_earn''),
      (is_points_info_query, ''points_info''),
      (is_points_query, ''points_check'')]"

text \<open>The first entry of a priority list whose predicate holds decides; \<open>general\<close> when
  none does.\<close>

fun first_true :: "((string \<Rightarrow> bool) \<times> string) list \<Rightarrow> string \<Rightarrow> string" where
  "first_true [] q = ''general''"
| "first_true ((p, i) # rest) q = (if p q then i else first_true rest q)"

section \<open>UUID normalisation\<close>

text \<open>
  The values \<open>_format_uuid\<close> tells apart: \<open>None\<close>, a string, \<open>bytes\<close> or
  \<open>bytearray\<close>, a list or a tuple of integers, a \<open>memoryview\<close>, and any other object, of
  which only the truth value and the result of \<open>str\<close> matter.
\<close>

datatype uuid_value =
    VNone
  | VStr string
  | VBytes "8 word list"
  | VList "int list"
  | VTuple "int list"
  | VMemoryview "8 word list"
  | VOther bool string

text \<open>Python's truth value of such an object (\<open>not uuid_value\<close> is its negation).\<close>

fun truthy :: "uuid_value \<Rightarrow> bool" where
  "truthy VNone = False"
| "truthy (VStr s) = (s \<noteq> [])"
| "truthy (VBytes b) = (b \<noteq> [])"
| "truthy (VList xs) = (xs \<noteq> [])"
| "truthy (VTuple xs) = (xs \<noteq> [])"
| "truthy (VMemoryview b) = (b \<noteq> [])"
| "truthy (VOther t s) = t"

definition hexdigit :: "nat \<Rightarrow> char" where
  "hexdigit n = ''0123456789abcdef'' ! (n mod 16)"

text \<open>\<open>bytes.hex()\<close>: two lowercase hexadecimal digits for each byte.\<close>

definition hex_byte :: "8 word \<Rightarrow> string" where
  "hex_byte b = [hexdigit (unat b div 16), hexdigit (unat b mod 16)]"

definition bytes_hex :: "8 word list \<Rightarrow> string" where
  "bytes_hex bs = concat (map hex_byte bs)"

text \<open>The hexadecimal and the decimal digits of a natural number, without padding.\<close>

fun hex_nat :: "nat \<Rightarrow> string" where
  "hex_nat n = (if n < 16 then [hexdigit n] else hex_nat (n div 16) @ [hexdigit (n mod 16)])"

fun dec_nat :: "nat \<Rightarrow> string" where
  "dec_nat n =
     (if n < 10 then [''0123456789'' ! n] else dec_nat (n div 10) @ [''0123456789'' ! (n mod 10)])"

text \<open>\<open>f'{b:02x}'\<close> for an integer \<open>b\<close>: lowercase hexadecimal, padded with zeros to
  two characters, the sign of a negative number counted in the width.\<close>

definition format_02x :: "int \<Rightarrow> string" where
  "format_02x b =
     (if b < 0 then CHR ''-'' # hex_nat (nat (- b))
      else if b < 16 then CHR ''0'' # hex_nat (nat b)
      else hex_nat (nat b))"

definition py_str_int :: "int \<Rightarrow> string" where
  "py_str_int i = (if i < 0 then CHR ''-'' # dec_nat (nat (- i)) else dec_nat (nat i))"

fun join_strs :: "string \<Rightarrow> string list \<Rightarrow> string" where
  "join_strs sep [] = []"
| "join_strs sep [x] = x"
| "join_strs sep (x # y # ys) = x @ sep @ join_strs sep (y # ys)"

text \<open>\<open>str\<close> of a list and of a tuple of integers.\<close>

definition py_str_list :: "int list \<Rightarrow> string" where
  "py_str_list xs = ''['' @ join_strs '', '' (map py_str_int xs) @ '']''"

definition py_str_tuple :: "int list \<Rightarrow> string" where
  "py_str_tuple xs =
     (case xs of
        [x] \<Rightarrow> ''('' @ py_str_int x @ '',)''
      | _ \<Rightarrow> ''('' @ join_strs '', '' (map py_str_int xs) @ '')'')"

text \<open>The f-string \<open>{h[:8]}-{h[8:12]}-{h[12:16]}-{h[16:20]}-{h[20:]}\<close>.\<close>

definition dashed :: "string \<Rightarrow> string" where
  "dashed h = take 8 h @ ''-'' @ take 4 (drop 8 h) @ ''-'' @ take 4 (drop 12 h) @ ''-''
              @ take 4 (drop 16 h) @ ''-'' @ drop 20 h"

text \<open>\<open>AnalyticsAgent._format_uuid\<close>.\<close>

definition format_uuid :: "uuid_value \<Rightarrow> string" where
  "format_uuid uuid_value =
     (if \<not> truthy uuid_value then []
      else case uuid_value of
        VStr s \<Rightarrow>
          (if length s = 36 \<and> count_list s CHR ''-'' = 4 then s
           else if length s = 32 then dashed s
           else s)
      | VBytes b \<Rightarrow> dashed (bytes_hex b)
      | VList xs \<Rightarrow>
          (if length xs = 16 then dashed (concat (map format_02x xs)) else py_str_list xs)
      | VTuple xs \<Rightarrow>
          (if length xs = 16 then dashed (concat (map format_02x xs)) else py_str_tuple xs)
      | VMemoryview b \<Rightarrow> dashed (bytes_hex b)
      | VOther t s \<Rightarrow> s
      | VNone \<Rightarrow> [])"

subsection \<open>The encodings and the canonical form, as the specification describes them\<close>

definition is_hex :: "char \<Rightarrow> bool" where
  "is_hex c = (c \<in> set ''0123456789abcdefABCDEF'')"

definition is_lower_hex :: "char \<Rightarrow> bool" where
  "is_lower_hex c = (c \<in> set ''0123456789abcdef'')"

text \<open>A dashed 36-character UUID string: hexadecimal digits of either case in groups of
  8, 4, 4, 4 and 12, a dash between two groups.\<close>

definition is_dashed_uuid :: "string \<Rightarrow> bool" where
  "is_dashed_uuid s =
     (length s = 36 \<and> s ! 8 = CHR ''-'' \<and> s ! 13 = CHR ''-'' \<and> s ! 18 = CHR ''-''
      \<and> s ! 23 = CHR ''-''
      \<and> list_all is_hex (take 8 s) \<and> list_all is_hex (take 4 (drop 9 s))
      \<and> list_all is_hex (take 4 (drop 14 s)) \<and> list_all is_hex (take 4 (drop 19 s))
      \<and> list_all is_hex (drop 24 s))"

text \<open>The canonical UUID strings: dashed, and every digit lowercase.\<close>

definition is_canonical_uuid :: "string \<Rightarrow> bool" where
  "is_canonical_uuid s =
     (is_dashed_uuid s \<and> list_all (\<lambda>c. c = CHR ''-'' \<or> is_lower_hex c) s)"

definition is_byte_value :: "int \<Rightarrow> bool" where
  "is_byte_value x = (0 \<le> x \<and> x < 256)"

text \<open>The accepted encodings of a UUID.\<close>

fun accepted_encoding :: "uuid_value \<Rightarrow> bool" where
  "accepted_encoding (VStr s) = (is_dashed_uuid s \<or> (length s = 32 \<and> list_all is_hex s))"
| "accepted_encoding (VBytes b) = (length b = 16)"
| "accepted_encoding (VList xs) = (length xs = 16 \<and> list_all is_byte_value xs)"
| "accepted_encoding (VTuple xs) = (length xs = 16 \<and> list_all is_byte_value xs)"
| "accepted_encoding _ = False"

text \<open>The 32 hexadecimal digits an accepted encoding stands for.\<close>

fun uuid_digits :: "uuid_value \<Rightarrow> string" where
  "uuid_digits (VStr s) = filter (\<lambda>c. c \<noteq> CHR ''-'') s"
| "uuid_digits (VBytes b) = bytes_hex b"
| "uuid_digits (VList xs) = bytes_hex (map word_of_int xs)"
| "uuid_digits (VTuple xs) = bytes_hex (map word_of_int xs)"
| "uuid_digits _ = []"





section \<open>LLM stage of intent classification and the choice between the stages\<close>

text \<open>\<open>str.lower()\<close> and \<open>str.strip()\<close> on the code points 0..255.\<close>

definition py_lower_char :: "char \<Rightarrow> char" where
  "py_lower_char c =
     (let n = (of_char c :: nat)
      in if (65 \<le> n \<and> n \<le> 90) \<or> (192 \<le> n \<and> n \<le> 222 \<and> n \<noteq> 215)
         then char_of (n + 32) else c)"

definition py_lower :: "string \<Rightarrow> string" where
  "py_lower s = map py_lower_char s"

definition py_strip :: "string \<Rightarrow> string" where
  "py_strip s = rev (dropWhile py_isspace (rev (dropWhile py_isspace s)))"

text \<open>\<open>INTENT_CLASSIFICATION_PROMPT.format(query=query)\<close>: the text before and after the
  place of the query.\<close>

definition prompt_head :: string where
  "prompt_head =
    ''Klasifikasikan intent dari pertanyaan pengguna berikut untuk sistem laundry.'' @
    [CHR 0x0A] @ [CHR 0x0A] @ ''Pertanyaan: '' @ [CHR 0x22]"

definition prompt_tail :: string where
  "prompt_tail =
    [CHR 0x22] @ [CHR 0x0A] @ [CHR 0x0A] @
    ''Pilih SATU intent yang paling sesuai dari daftar berikut:'' @ [CHR 0x0A] @
    ''- daily_revenue: Laporan pendapatan harian/hari ini/kemarin'' @ [CHR 0x0A] @
    ''- weekly_revenue: Laporan pendapatan mingguan/minggu ini'' @ [CHR 0x0A] @
    ''- monthly_revenue: Laporan pendapatan bulanan/bulan ini'' @ [CHR 0x0A] @
    ''- compare_periods: Perbandingan pendapatan antar periode (minggu ini vs lalu, bulan ini vs lalu)'' @
    [CHR 0x0A] @ ''- popular_services: Layanan terlaris/populer/top'' @ [CHR 0x0A] @
    ''- peak_hours: Jam sibuk/ramai'' @ [CHR 0x0A] @
    ''- churned_customers: Pelanggan churn/hilang/tidak kembali'' @ [CHR 0x0A] @
    ''- inactive_customers: Pelanggan tidak aktif'' @ [CHR 0x0A] @
    ''- points_summary: Ringkasan/total poin toko'' @ [CHR 0x0A] @
    ''- points_redeem: Cara tukar/pakai poin'' @ [CHR 0x0A] @
    ''- points_earn: Cara dapat/kumpul poin'' @ [CHR 0x0A] @
    ''- points_check: Cek poin pelanggan (dengan nomor HP)'' @ [CHR 0x0A] @
    ''- points_info: Informasi umum tentang poin'' @ [CHR 0x0A] @
    ''- store_list: Daftar toko/cabang'' @ [CHR 0x0A] @
    ''- store_detail: Detail/info toko tertentu'' @ [CHR 0x0A] @
    ''- general: Pertanyaan umum lainnya'' @ [CHR 0x0A] @ [CHR 0x0A] @
    ''Juga ekstrak informasi berikut jika ada:'' @ [CHR 0x0A] @
    ''- store_name: Nama toko yang disebutkan (jika ada)'' @ [CHR 0x0A] @
    ''- phone_number: Nomor HP (format 08xxx)'' @ [CHR 0x0A] @
    ''- period: Periode waktu (week/month)'' @ [CHR 0x0A] @ [CHR 0x0A] @
    ''Jawab HANYA dalam format JSON seperti ini:'' @ [CHR 0x0A] @ ''{'' @ [CHR 0x22] @
    ''intent'' @ [CHR 0x22] @ '': '' @ [CHR 0x22] @ ''nama_intent'' @ [CHR 0x22] @ '', '' @
    [CHR 0x22] @ ''store_name'' @ [CHR 0x22] @ '': '' @ [CHR 0x22] @
    ''nama toko atau null'' @ [CHR 0x22] @ '', '' @ [CHR 0x22] @ ''phone_number'' @
    [CHR 0x22] @ '': '' @ [CHR 0x22] @ ''nomor atau null'' @ [CHR 0x22] @ '', '' @
    [CHR 0x22] @ ''period'' @ [CHR 0x22] @ '': '' @ [CHR 0x22] @ ''week/month atau null'' @
    [CHR 0x22] @ ''}''"

definition intent_classification_prompt :: "string \<Rightarrow> string" where
  "intent_classification_prompt query = prompt_head @ query @ prompt_tail"

text \<open>
  What the completion client does with a prompt: it raises (in
  \<open>generate_content_async\<close> or when \<open>response.text\<close> is read), it returns a falsy
  response, or it returns a response with a text.  The agent's client is optional.
\<close>

datatype llm_outcome = LlmRaises string | LlmNoResponse | LlmText string

type_synonym gemini_client = "(string \<Rightarrow> llm_outcome) option"

text \<open>The exceptions of the \<open>try\<close> block of \<open>_classify_intent_with_llm\<close>:
  \<open>json.JSONDecodeError\<close> and any other one, with its message.\<close>

datatype llm_exception = JSONDecodeError | OtherException string

text \<open>Taking a Markdown code fence off the reply.\<close>

definition strip_code_fence :: "string \<Rightarrow> string" where
  "strip_code_fence response_text =
     (let text = py_strip response_text
      in if prefix ''```'' text then
           (let text = (if CHR 0x0A \<in> set text
                        then drop 1 (dropWhile (\<lambda>c. c \<noteq> CHR 0x0A) text)
                        else drop 3 text);
                text = (if suffix ''```'' text then take (length text - 3) text else text);
                text = py_strip text
            in if prefix ''json'' text then py_strip (drop 4 text) else text)
         else text)"

text \<open>\<open>result.get(key, default)\<close> on a parsed value: only a JSON object has \<open>get\<close>; on
  any other value the attribute lookup raises.\<close>

definition json_get :: "json \<Rightarrow> string \<Rightarrow> json \<Rightarrow> llm_exception + json" where
  "json_get result key dflt =
     (case result of
        JObj kvs \<Rightarrow> Inr (case map_of kvs key of Some v \<Rightarrow> v | None \<Rightarrow> dflt)
      | _ \<Rightarrow> Inl (OtherException ''AttributeError''))"

definition general_result :: classification where
  "general_result = \<lparr>cl_intent = JStr ''general'', cl_store_name = JNull,
                      cl_phone_number = JNull, cl_period = JNull\<rparr>"

text \<open>
  The \<open>try\<close> block of \<open>_classify_intent_with_llm\<close>.  \<open>Inl\<close> is an exception a statement
  of the block raises, \<open>Inr None\<close> is the end of the block reached without \<open>return\<close>.
  \<open>json.loads\<close> is a parameter: \<open>None\<close> stands for \<open>JSONDecodeError\<close>.
\<close>

definition llm_try_block ::
  "(string \<Rightarrow> llm_outcome) \<Rightarrow> (string \<Rightarrow> json option) \<Rightarrow> string
     \<Rightarrow> llm_exception + classification option" where
  "llm_try_block client loads query =
     (case client (intent_classification_prompt query) of
        LlmRaises e \<Rightarrow> Inl (OtherException e)
      | LlmNoResponse \<Rightarrow> Inr None
      | LlmText response_text \<Rightarrow>
          (if response_text = [] then Inr None
           else case loads (strip_code_fence response_text) of
             None \<Rightarrow> Inl JSONDecodeError
           | Some result \<Rightarrow>
               (case json_get result ''intent'' (JStr ''general'') of
                  Inl e \<Rightarrow> Inl e
                | Inr i \<Rightarrow>
               (case json_get result ''store_name'' JNull of
                  Inl e \<Rightarrow> Inl e
                | Inr sn \<Rightarrow>
               (case json_get result ''phone_number'' JNull of
                  Inl e \<Rightarrow> Inl e
                | Inr ph \<Rightarrow>
               (case json_get result ''period'' JNull of
                  Inl e \<Rightarrow> Inl e
                | Inr pe \<Rightarrow>
                    Inr (Some \<lparr>cl_intent = i, cl_store_name = sn, cl_phone_number = ph,
                                cl_period = pe\<rparr>)))))))"

text \<open>\<open>AnalyticsAgent._classify_intent_with_llm\<close>: without a client the general result at
  once; both \<open>except\<close> clauses log and fall through to the final \<open>return\<close>.\<close>

definition classify_intent_with_llm ::
  "gemini_client \<Rightarrow> (string \<Rightarrow> json option) \<Rightarrow> string \<Rightarrow> classification" where
  "classify_intent_with_llm gemini loads query =
     (case gemini of
        None \<Rightarrow> general_result
      | Some client \<Rightarrow>
          (case llm_try_block client loads query of
             Inr (Some result) \<Rightarrow> result
           | Inr None \<Rightarrow> general_result
           | Inl JSONDecodeError \<Rightarrow> general_result
           | Inl (OtherException e) \<Rightarrow> general_result))"

text \<open>
  The classification step of \<open>AnalyticsAgent.process_query\<close>: keywords first, the LLM as
  fallback.  Beside the classification it returns the queries handed to
  \<open>_classify_intent_with_llm\<close>, so that one can tell whether the LLM stage was entered.
\<close>

definition classify_query ::
  "bool \<Rightarrow> gemini_client \<Rightarrow> (string \<Rightarrow> json option) \<Rightarrow> string
     \<Rightarrow> classification \<times> string list" where
  "classify_query use_llm_fallback gemini loads query =
     (let query_lower = py_lower query;
          classification = classify_intent_with_keywords query_lower
      in if cl_intent classification = JStr ''general'' \<and> use_llm_fallback then
           (let llm_classification = classify_intent_with_llm gemini loads query
            in (if cl_intent llm_classification \<noteq> JStr ''general''
                then llm_classification else classification, [query]))
         else (classification, []))"

text \<open>The ways the LLM stage fails: no client, an exception during the call, a reply
  that does not parse as JSON, or one that parses to something that is not an object.\<close>

definition llm_fails :: "gemini_client \<Rightarrow> (string \<Rightarrow> json option) \<Rightarrow> string \<Rightarrow> bool" where
  "llm_fails gemini loads query =
     (case gemini of
        None \<Rightarrow> True
      | Some client \<Rightarrow>
          (case client (intent_classification_prompt query) of
             LlmRaises e \<Rightarrow> True
           | LlmNoResponse \<Rightarrow> False
           | LlmText t \<Rightarrow>
               t \<noteq> [] \<and> (case loads (strip_code_fence t) of
                             None \<Rightarrow> True
                           | Some (JObj kvs) \<Rightarrow> False
                           | Some _ \<Rightarrow> True)))"

section \<open>Phone number extraction of the customer service agent\<close>

text \<open>The character classes \<open>[0-9]\<close> and \<open>[1-9]\<close>, and \<open>\w\<close> of the \<open>re\<close> module on the
  code points 0..255: letters, digits and other numeric characters, and the underscore.\<close>

definition digit_0_9 :: "char \<Rightarrow> bool" where
  "digit_0_9 c = (c \<in> set ''0123456789'')"

definition digit_1_9 :: "char \<Rightarrow> bool" where
  "digit_1_9 c = (c \<in> set ''123456789'')"

definition is_word_char :: "char \<Rightarrow> bool" where
  "is_word_char c =
     (c \<in> set ''abcdefghijklmnopqrstuvwxyzABCDEFGHIJKLMNOPQRSTUVWXYZ0123456789_''
      \<or> c \<in> set [CHR 0xAA, CHR 0xB2, CHR 0xB3, CHR 0xB5, CHR 0xB9, CHR 0xBA, CHR 0xBC,
                    CHR 0xBD, CHR 0xBE]
      \<or> ((0xC0 :: nat) \<le> of_char c \<and> c \<noteq> CHR 0xD7 \<and> c \<noteq> CHR 0xF7))"

text \<open>The alternation \<open>(?:\+62|62|0)\<close> at the start of a string: the alternative that
  matches and what follows it.  The three alternatives begin with different characters,
  so at most one of them applies.\<close>

definition country_prefix :: "string \<Rightarrow> (string \<times> string) option" where
  "country_prefix s =
     (if prefix ''+62'' s then Some (''+62'', drop 3 s)
      else if prefix ''62'' s then Some (''62'', drop 2 s)
      else if prefix ''0'' s then Some (''0'', drop 1 s)
      else None)"

text \<open>The first pattern, \<open>(?:\+62|62|0)8[1-9][0-9]{7,10}\<close>, anchored at the start of the
  string; the repetition is greedy and nothing follows it.\<close>

definition match_mobile :: "string \<Rightarrow> string option" where
  "match_mobile s =
     (case country_prefix s of
        None \<Rightarrow> None
      | Some (pre, rest) \<Rightarrow>
          (case rest of
             c8 # d # ds \<Rightarrow>
               (if c8 = CHR ''8'' \<and> digit_1_9 d then
                  (let run = takeWhile digit_0_9 (take 10 ds)
                   in if length run \<ge> 7 then Some (pre @ c8 # d # run) else None)
                else None)
           | _ \<Rightarrow> None))"

fun search_mobile :: "string \<Rightarrow> string option" where
  "search_mobile [] = None"
| "search_mobile (c # cs) =
     (case match_mobile (c # cs) of Some m \<Rightarrow> Some m | None \<Rightarrow> search_mobile cs)"

text \<open>\<open>\b\<close> after a digit: the end of the string or a character outside \<open>\w\<close>.\<close>

definition boundary_after :: "string \<Rightarrow> bool" where
  "boundary_after rest = (case rest of [] \<Rightarrow> True | c # _ \<Rightarrow> \<not> is_word_char c)"

text \<open>The second pattern, \<open>\b08[0-9]{8,11}\b\<close>, at a position whose preceding character
  is \<open>prev\<close> (\<open>None\<close> at the start of the text).  The repetition tries the longest run
  first and gives digits back until the closing \<open>\b\<close> holds.\<close>

definition match_local :: "char option \<Rightarrow> string \<Rightarrow> string option" where
  "match_local prev s =
     (case s of
        c0 # c8 # rest \<Rightarrow>
          (if c0 = CHR ''0'' \<and> c8 = CHR ''8''
              \<and> (case prev of None \<Rightarrow> True | Some p \<Rightarrow> \<not> is_word_char p) then
             (let n = length (takeWhile digit_0_9 (take 11 rest))
              in case find (\<lambda>k. boundary_after (drop k rest)) (rev [8..<Suc n]) of
                   Some k \<Rightarrow> Some (c0 # c8 # take k rest)
                 | None \<Rightarrow> None)
           else None)
      | _ \<Rightarrow> None)"

fun search_local :: "char option \<Rightarrow> string \<Rightarrow> string option" where
  "search_local prev [] = None"
| "search_local prev (c # cs) =
     (case match_local prev (c # cs) of
        Some m \<Rightarrow> Some m
      | None \<Rightarrow> search_local (Some c) cs)"

text \<open>\<open>CustomerServiceAgent._extract_phone\<close>: the first pattern is searched through the
  whole message before the second one is tried.\<close>

definition extract_phone :: "string \<Rightarrow> string option" where
  "extract_phone message =
     (case search_mobile message of
        Some m \<Rightarrow> Some m
      | None \<Rightarrow> search_local None message)"

subsection \<open>The pattern as the specification describes it\<close>

text \<open>A substring that starts with 08, or with 62 or +62 in place of the 0, followed by 8
  to 12 digits; \<open>spec_phone_at\<close> is its longest match at the start of a string and
  \<open>spec_first_phone\<close> the first match in a text.\<close>

definition spec_phone_at :: "string \<Rightarrow> string option" where
  "spec_phone_at s =
     (case country_prefix s of
        None \<Rightarrow> None
      | Some (pre, rest) \<Rightarrow>
          (case rest of
             c8 # ds \<Rightarrow>
               (if c8 = CHR ''8'' then
                  (let run = takeWhile digit_0_9 (take 12 ds)
                   in if length run \<ge> 8 then Some (pre @ c8 # run) else None)
                else None)
           | _ \<Rightarrow> None))"

fun spec_first_phone :: "string \<Rightarrow> string option" where
  "spec_first_phone [] = None"
| "spec_first_phone (c # cs) =
     (case spec_phone_at (c # cs) of Some m \<Rightarrow> Some m | None \<Rightarrow> spec_first_phone cs)"

text \<open>The shape of a returned number: 08, 628 or +628 followed by between \<open>lo\<close> and \<open>hi\<close>
  digits.\<close>

definition phone_shape :: "nat \<Rightarrow> nat \<Rightarrow> string \<Rightarrow> bool" where
  "phone_shape lo hi m =
     list_ex (\<lambda>pre. prefix (pre @ ''8'') m
                    \<and> list_all digit_0_9 (drop (length pre + 1) m)
                    \<and> lo \<le> length m - (length pre + 1)
                    \<and> length m - (length pre + 1) \<le> hi)
       [''0'', ''62'', ''+62'']"

subsection \<open>The matches of the two patterns\<close>

text \<open>The strings that the first pattern, \<open>(?:\+62|62|0)8[1-9][0-9]{7,10}\<close>, matches in
  full: one of the three prefixes, an 8, a digit from 1 to 9 and 7 to 10 further digits.\<close>

definition mobile_shape :: "string \<Rightarrow> bool" where
  "mobile_shape m =
     list_ex (\<lambda>pre. prefix (pre @ ''8'') m
                    \<and> (case drop (length pre + 1) m of
                          [] \<Rightarrow> False
                        | d # ds \<Rightarrow> digit_1_9 d \<and> list_all digit_0_9 ds
                                   \<and> 7 \<le> length ds \<and> length ds \<le> 10))
       [''+62'', ''62'', ''0'']"

text \<open>The strings that \<open>08[0-9]{8,11}\<close> matches in full.\<close>

definition local_shape :: "string \<Rightarrow> bool" where
  "local_shape m =
     (prefix ''08'' m \<and> list_all digit_0_9 (drop 2 m)
      \<and> 8 \<le> length m - 2 \<and> length m - 2 \<le> 11)"

text \<open>\<open>\b\<close> at position \<open>k\<close> of a text: exactly one of the characters before and after
  the position is in \<open>\w\<close>, the ends of the text counting as outside \<open>\w\<close>.\<close>

definition word_boundary :: "string \<Rightarrow> nat \<Rightarrow> bool" where
  "word_boundary text k =
     ((0 < k \<and> k \<le> length text \<and> is_word_char (text ! (k - 1)))
      \<noteq> (k < length text \<and> is_word_char (text ! k)))"

text \<open>A match of the first pattern at position \<open>i\<close> of the text, and a match of the
  second pattern, \<open>\b08[0-9]{8,11}\b\<close>, at position \<open>i\<close>.\<close>

definition mobile_at :: "string \<Rightarrow> nat \<Rightarrow> string \<Rightarrow> bool" where
  "mobile_at text i m = (i \<le> length text \<and> prefix m (drop i text) \<and> mobile_shape m)"

definition local_at :: "string \<Rightarrow> nat \<Rightarrow> string \<Rightarrow> bool" where
  "local_at text i m =
     (i \<le> length text \<and> prefix m (drop i text) \<and> local_shape m
      \<and> word_boundary text i \<and> word_boundary text (i + length m))"

text \<open>The character before position \<open>i\<close> of a text whose own predecessor is \<open>p\<close>.\<close>

definition prev_char :: "char option \<Rightarrow> string \<Rightarrow> nat \<Rightarrow> char option" where
  "prev_char p s i = (if i = 0 then p else Some (s ! (i - 1)))"

section \<open>The analytics agent: state, data store and store cache\<close>

text \<open>
  A row of the \<open>stores\<close> table as the data store returns it.  The \<open>id\<close> comes in any of
  the encodings \<open>_format_uuid\<close> knows; \<open>address\<close> and \<open>phone\<close> may be missing.
\<close>

record store =
  st_name :: string
  st_id :: uuid_value
  st_address :: "string option"
  st_phone :: "string option"

text \<open>The calls the agent makes to the toolbox server through its client.\<close>

datatype tool_call =
    LoadAnalyticsTools
  | ListStores
  | GetDailyRevenue string string
  | GetOrderStatusSummary string
  | GetWeeklyRevenue string
  | GetMonthlyRevenue string
  | GetPopularServices nat nat string
  | CompareRevenuePeriods string string
  | GetPeakHours nat string
  | GetChurnedCustomers nat
  | GetInactiveCustomers nat
  | GetCustomerPoints string
  | GetPointsSummaryByStore string

text \<open>
  The world outside the agent.  Each answer depends on how many calls were made before
  it, so the same call may be answered differently over time.  \<open>Inl e\<close> and \<open>Some e\<close>
  (for loading the tools) mean that the call raises an exception whose \<open>str\<close> is \<open>e\<close>.
  A report query returns rows of a type \<open>'r\<close> that is left open; \<open>None\<close> is a falsy
  result (\<open>None\<close> or an empty list).
\<close>

record 'r world =
  w_load_tools :: "nat \<Rightarrow> string option"
  w_list_stores :: "nat \<Rightarrow> string + store list"
  w_query :: "nat \<Rightarrow> tool_call \<Rightarrow> string + 'r option"

text \<open>The reports whose text is rendered from rows of the data store.\<close>

datatype report_kind = Daily | Weekly | Monthly | Compare | TopServices | PeakHours
  | Churned | Inactive | CustomerPoints | PointsSummary

text \<open>
  What the model takes as given.  \<open>render\<close> is the text a handler builds from the rows
  it fetched and the store's name (currency and number formatting of dynamically typed
  rows); it may raise, as any statement inside a handler's \<open>try\<close> block may.
  \<open>render_stores\<close> is the same for the store listing.  \<open>title\<close> is \<open>str.title()\<close>.
  \<open>complex_prompt\<close> is the prompt \<open>_handle_complex_query\<close> builds from the rows it
  fetched and the query.
\<close>

record 'r given =
  render :: "report_kind \<Rightarrow> 'r list \<Rightarrow> string \<Rightarrow> string + string"
  render_stores :: "store list \<Rightarrow> string + string"
  title :: "string \<Rightarrow> string"
  complex_prompt :: "'r list \<Rightarrow> string \<Rightarrow> string"

text \<open>
  The agent: whether the tools are loaded, the instance store id, the store cache (a
  dictionary, kept in insertion order), and the calls made so far, oldest first.
\<close>

record agent =
  tools_loaded :: bool
  store_id :: string
  store_cache :: "(string \<times> store) list"
  calls :: "tool_call list"

text \<open>The value of the \<open>data\<close> key of a response.\<close>

datatype 'r payload = DataNone | DataEmpty | RequiresStore | Rows "'r list"
  | Stores "store list" | OneStore store

text \<open>A response dictionary; \<open>None\<close> for \<open>data\<close> or \<open>error\<close> means the key is absent, and
  so does \<open>False\<close> for \<open>ai_generated\<close>.\<close>

record 'r response =
  success :: bool
  response :: string
  data :: "'r payload option"
  error :: "string option"
  ai_generated :: bool

text \<open>
  A step of the agent: from a state to a result and the state after it.  \<open>Inl e\<close> is an
  exception, with its \<open>str\<close>, leaving the step; what the step did to the state before
  it raised stays done.
\<close>

type_synonym 'a step = "agent \<Rightarrow> (string + 'a) \<times> agent"

definition m_return :: "'a \<Rightarrow> 'a step" where
  "m_return x s = (Inr x, s)"

definition m_bind :: "'a step \<Rightarrow> ('a \<Rightarrow> 'b step) \<Rightarrow> 'b step" where
  "m_bind m f s = (case m s of (Inl e, s1) \<Rightarrow> (Inl e, s1) | (Inr x, s1) \<Rightarrow> f x s1)"

text \<open>A computation without access to the state that may raise.\<close>

definition m_lift :: "string + 'a \<Rightarrow> 'a step" where
  "m_lift r s = (r, s)"

text \<open>\<open>try: body except Exception as e: handler(e)\<close>.\<close>

definition try_except :: "'a step \<Rightarrow> (string \<Rightarrow> 'a step) \<Rightarrow> 'a step" where
  "try_except body handler s =
     (case body s of (Inl e, s1) \<Rightarrow> handler e s1 | (Inr x, s1) \<Rightarrow> (Inr x, s1))"

text \<open>A report query through the toolbox client: the call is recorded, the world
  answers.\<close>

definition call_query :: "'r world \<Rightarrow> tool_call \<Rightarrow> ('r option) step" where
  "call_query w c s = (w_query w (length (calls s)) c, s\<lparr>calls := calls s @ [c]\<rparr>)"

definition call_list_stores :: "'r world \<Rightarrow> (store list) step" where
  "call_list_stores w s =
     (w_list_stores w (length (calls s)), s\<lparr>calls := calls s @ [ListStores]\<rparr>)"

text \<open>\<open>AnalyticsAgent._ensure_tools_loaded\<close>.\<close>

definition ensure_tools_loaded :: "'r world \<Rightarrow> unit step" where
  "ensure_tools_loaded w s =
     (if \<not> tools_loaded s then
        (case w_load_tools w (length (calls s)) of
           Some e \<Rightarrow> (Inl e, s\<lparr>calls := calls s @ [LoadAnalyticsTools]\<rparr>)
         | None \<Rightarrow>
             (Inr (), s\<lparr>calls := calls s @ [LoadAnalyticsTools], tools_loaded := True\<rparr>))
      else (Inr (), s))"

text \<open>\<open>d[k] = v\<close> on a dictionary in insertion order: an existing key keeps its place.\<close>

fun dict_set :: "'k \<Rightarrow> 'v \<Rightarrow> ('k \<times> 'v) list \<Rightarrow> ('k \<times> 'v) list" where
  "dict_set k v [] = [(k, v)]"
| "dict_set k v ((k', v') # kvs) =
     (if k' = k then (k, v) # kvs else (k', v') # dict_set k v kvs)"

text \<open>The loop of \<open>_load_store_cache\<close>: every store is stored under its lowercased name,
  its \<open>id\<close> replaced by the formatted one.\<close>

fun cache_normalized :: "store list \<Rightarrow> (string \<times> store) list \<Rightarrow> (string \<times> store) list" where
  "cache_normalized [] cache = cache"
| "cache_normalized (st # stores) cache =
     cache_normalized stores
       (dict_set (py_lower (st_name st)) (st\<lparr>st_id := VStr (format_uuid (st_id st))\<rparr>) cache)"

text \<open>The loop of \<open>list_stores\<close>: every store is stored under its lowercased name as it
  came.\<close>

fun cache_raw :: "store list \<Rightarrow> (string \<times> store) list \<Rightarrow> (string \<times> store) list" where
  "cache_raw [] cache = cache"
| "cache_raw (st # stores) cache =
     cache_raw stores (dict_set (py_lower (st_name st)) st cache)"

text \<open>\<open>AnalyticsAgent._load_store_cache\<close>: only an empty cache is filled; an exception of
  the fetch is logged and the cache stays empty.  The method never raises.\<close>

definition load_store_cache :: "'r world \<Rightarrow> agent \<Rightarrow> agent" where
  "load_store_cache w s =
     (if store_cache s = [] then
        (case call_list_stores w s of
           (Inl e, s1) \<Rightarrow> s1
         | (Inr stores, s1) \<Rightarrow> s1\<lparr>store_cache := cache_normalized stores (store_cache s1)\<rparr>)
      else s)"

definition m_load_store_cache :: "'r world \<Rightarrow> unit step" where
  "m_load_store_cache w s = (Inr (), load_store_cache w s)"

text \<open>
  Symbols outside the range 0..255 occur only in the fixed texts of responses; each is
  written as the bytes of its UTF-8 encoding.  No property below depends on them.
\<close>

definition sym_chart :: string where
  "sym_chart = [CHR 0xF0, CHR 0x9F, CHR 0x93, CHR 0x8A]"

definition sym_store :: string where
  "sym_store = [CHR 0xF0, CHR 0x9F, CHR 0x8F, CHR 0xAA]"

definition sym_bulb :: string where
  "sym_bulb = [CHR 0xF0, CHR 0x9F, CHR 0x92, CHR 0xA1]"

definition sym_bullet :: string where
  "sym_bullet = [CHR 0xE2, CHR 0x80, CHR 0xA2]"

definition sym_party :: string where
  "sym_party = [CHR 0xF0, CHR 0x9F, CHR 0x8E, CHR 0x89]"

definition sym_pin :: string where
  "sym_pin = [CHR 0xF0, CHR 0x9F, CHR 0x93, CHR 0x8D]"

definition sym_phone :: string where
  "sym_phone = [CHR 0xF0, CHR 0x9F, CHR 0x93, CHR 0x9E]"

definition nl :: string where
  "nl = [CHR 0x0A]"

text \<open>The lines that list the stores: the first five names of the cache, and how many
  more there are.\<close>

definition store_lines :: "(string \<Rightarrow> string) \<Rightarrow> (string \<times> store) list \<Rightarrow> string" where
  "store_lines ttl cache =
     concat (map (\<lambda>name. nl @ sym_bullet @ '' '' @ ttl name) (take 5 (map fst cache)))
     @ (if length cache > 5
        then nl @ sym_bullet @ '' ... dan '' @ dec_nat (length cache - 5) @ '' toko lainnya''
        else [])"

text \<open>\<open>AnalyticsAgent._ask_for_store_context\<close>.\<close>

definition ask_for_store_context ::
  "'r given \<Rightarrow> 'r world \<Rightarrow> string \<Rightarrow> agent \<Rightarrow> 'r response \<times> agent" where
  "ask_for_store_context g w report_type s =
     (let s1 = load_store_cache w s;
          text = sym_chart @ '' *'' @ title g report_type @ ''*'' @ nl @ nl
                 @ ''Mohon sebutkan nama toko untuk melihat '' @ report_type @ ''.'' @ nl @ nl
                 @ ''Contoh: `'' @ report_type @ '' toko [nama toko]`'' @ nl @ nl
                 @ sym_store @ '' *Toko tersedia:*''
                 @ store_lines (title g) (store_cache s1)
                 @ nl @ nl @ sym_bulb @ '' Ketik `daftar toko` untuk melihat semua toko.''
      in (\<lparr>success = True, response = text, data = Some RequiresStore, error = None,
           ai_generated = False\<rparr>, s1))"

text \<open>\<open>AnalyticsAgent._get_store_name_by_id\<close>: a cached identifier equals the string
  \<open>store_id\<close> only if it is that very string.\<close>

definition get_store_name_by_id :: "'r world \<Rightarrow> string \<Rightarrow> string step" where
  "get_store_name_by_id w sid s =
     (let s1 = load_store_cache w s
      in (Inr (case find (\<lambda>(store_name, store_info). st_id store_info = VStr sid)
                        (store_cache s1) of
                 Some (store_name, store_info) \<Rightarrow> st_name store_info
               | None \<Rightarrow> (if sid \<noteq> [] then take 8 sid else ''Unknown'')), s1))"

section \<open>The handlers of the analytics agent\<close>

definition ok_response :: "string \<Rightarrow> 'r payload \<Rightarrow> 'r response" where
  "ok_response text payload =
     \<lparr>success = True, response = text, data = Some payload, error = None,
      ai_generated = False\<rparr>"

text \<open>The dictionary every \<open>except\<close> clause of a handler returns.\<close>

definition failure_response :: "string \<Rightarrow> string \<Rightarrow> 'r response" where
  "failure_response msg e =
     \<lparr>success = False, response = msg, data = None, error = Some e, ai_generated = False\<rparr>"

definition m_ask :: "'r given \<Rightarrow> 'r world \<Rightarrow> string \<Rightarrow> ('r response) step" where
  "m_ask g w report_type s =
     (case ask_for_store_context g w report_type s of (r, s1) \<Rightarrow> (Inr r, s1))"

text \<open>\<open>store_id if store_id is not None else self._store_id\<close>.\<close>

definition effective_id :: "string option \<Rightarrow> agent \<Rightarrow> string" where
  "effective_id sid s = (case sid of Some x \<Rightarrow> x | None \<Rightarrow> store_id s)"

definition opt_list :: "'a option \<Rightarrow> 'a list" where
  "opt_list x = (case x of Some y \<Rightarrow> [y] | None \<Rightarrow> [])"

text \<open>\<open>AnalyticsAgent.get_daily_report\<close>: first the \<open>try\<close> block, then the method.\<close>

definition daily_block :: "'r given \<Rightarrow> 'r world \<Rightarrow> string \<Rightarrow> string \<Rightarrow> ('r response) step" where
  "daily_block g w date_str sid =
     m_bind (call_query w (GetDailyRevenue date_str sid)) (\<lambda>revenue.
     m_bind (call_query w (GetOrderStatusSummary sid)) (\<lambda>status_summary.
       case revenue of
         None \<Rightarrow> m_return (ok_response ''Belum ada data transaksi untuk tanggal ini.'' DataNone)
       | Some row \<Rightarrow>
           m_bind (get_store_name_by_id w sid) (\<lambda>store_name.
           m_bind (m_lift (render g Daily (row # opt_list status_summary) store_name)) (\<lambda>text.
           m_return (ok_response text (Rows (row # opt_list status_summary)))))))"

definition get_daily_report ::
  "'r given \<Rightarrow> 'r world \<Rightarrow> string option \<Rightarrow> string option \<Rightarrow> ('r response) step" where
  "get_daily_report g w date sid =
     m_bind (ensure_tools_loaded w) (\<lambda>_ s.
       if effective_id sid s = [] then m_ask g w ''laporan harian'' s
       else try_except
              (daily_block g w (case date of Some d \<Rightarrow> d | None \<Rightarrow> []) (effective_id sid s))
              (\<lambda>e. m_return (failure_response ''Gagal mengambil laporan harian.'' e)) s)"

text \<open>\<open>AnalyticsAgent.get_weekly_report\<close>.\<close>

definition weekly_block :: "'r given \<Rightarrow> 'r world \<Rightarrow> string \<Rightarrow> ('r response) step" where
  "weekly_block g w sid =
     m_bind (call_query w (GetWeeklyRevenue sid)) (\<lambda>revenue.
       case revenue of
         None \<Rightarrow> m_return (ok_response ''Belum ada data transaksi minggu ini.'' DataNone)
       | Some row \<Rightarrow>
           m_bind (get_store_name_by_id w sid) (\<lambda>store_name.
           m_bind (m_lift (render g Weekly [row] store_name)) (\<lambda>text.
           m_return (ok_response text (Rows [row])))))"

definition get_weekly_report ::
  "'r given \<Rightarrow> 'r world \<Rightarrow> string option \<Rightarrow> ('r response) step" where
  "get_weekly_report g w sid =
     m_bind (ensure_tools_loaded w) (\<lambda>_ s.
       if effective_id sid s = [] then m_ask g w ''laporan mingguan'' s
       else try_except (weekly_block g w (effective_id sid s))
              (\<lambda>e. m_return (failure_response ''Gagal mengambil laporan mingguan.'' e)) s)"

text \<open>\<open>AnalyticsAgent.get_monthly_report\<close>.\<close>

definition monthly_block :: "'r given \<Rightarrow> 'r world \<Rightarrow> string \<Rightarrow> ('r response) step" where
  "monthly_block g w sid =
     m_bind (call_query w (GetMonthlyRevenue sid)) (\<lambda>revenue.
     m_bind (call_query w (GetPopularServices 30 5 sid)) (\<lambda>popular_services.
       case revenue of
         None \<Rightarrow> m_return (ok_response ''Belum ada data transaksi bulan ini.'' DataNone)
       | Some row \<Rightarrow>
           m_bind (m_lift (render g Monthly (row # opt_list popular_services) [])) (\<lambda>text.
           m_return (ok_response text (Rows (row # opt_list popular_services))))))"

definition get_monthly_report ::
  "'r given \<Rightarrow> 'r world \<Rightarrow> string option \<Rightarrow> ('r response) step" where
  "get_monthly_report g w sid =
     m_bind (ensure_tools_loaded w) (\<lambda>_ s.
       if effective_id sid s = [] then m_ask g w ''laporan bulanan'' s
       else try_except (monthly_block g w (effective_id sid s))
              (\<lambda>e. m_return (failure_response ''Gagal mengambil laporan bulanan.'' e)) s)"

text \<open>\<open>AnalyticsAgent.compare_periods\<close>.\<close>

definition compare_block :: "'r given \<Rightarrow> 'r world \<Rightarrow> string \<Rightarrow> string \<Rightarrow> ('r response) step" where
  "compare_block g w period_name sid =
     m_bind (call_query w (CompareRevenuePeriods period_name sid)) (\<lambda>comparison.
       case comparison of
         None \<Rightarrow> m_return (ok_response ''Data tidak cukup untuk perbandingan.'' DataNone)
       | Some cmp \<Rightarrow>
           m_bind (get_store_name_by_id w sid) (\<lambda>store_name.
           m_bind (m_lift (render g Compare [cmp] store_name)) (\<lambda>text.
           m_return (ok_response text (Rows [cmp])))))"

definition compare_periods ::
  "'r given \<Rightarrow> 'r world \<Rightarrow> string \<Rightarrow> string option \<Rightarrow> ('r response) step" where
  "compare_periods g w period_name sid =
     m_bind (ensure_tools_loaded w) (\<lambda>_ s.
       if effective_id sid s = [] then m_ask g w ''perbandingan pendapatan'' s
       else try_except (compare_block g w period_name (effective_id sid s))
              (\<lambda>e. m_return (failure_response ''Gagal membandingkan periode.'' e)) s)"

text \<open>\<open>AnalyticsAgent.get_top_services\<close> and \<open>get_peak_hours\<close>: no store is asked for.\<close>

definition top_services_block ::
  "'r given \<Rightarrow> 'r world \<Rightarrow> nat \<Rightarrow> nat \<Rightarrow> string \<Rightarrow> ('r response) step" where
  "top_services_block g w days limit sid =
     m_bind (call_query w (GetPopularServices days limit sid)) (\<lambda>services.
       case services of
         None \<Rightarrow> m_return (ok_response ''Belum ada data layanan.'' DataEmpty)
       | Some svc \<Rightarrow>
           m_bind (m_lift (render g TopServices [svc] [])) (\<lambda>text.
           m_return (ok_response text (Rows [svc]))))"

definition get_top_services ::
  "'r given \<Rightarrow> 'r world \<Rightarrow> nat \<Rightarrow> nat \<Rightarrow> string option \<Rightarrow> ('r response) step" where
  "get_top_services g w days limit sid =
     m_bind (ensure_tools_loaded w) (\<lambda>_ s.
       try_except (top_services_block g w days limit (effective_id sid s))
         (\<lambda>e. m_return (failure_response ''Gagal mengambil data layanan populer.'' e)) s)"

definition peak_hours_block ::
  "'r given \<Rightarrow> 'r world \<Rightarrow> nat \<Rightarrow> string \<Rightarrow> ('r response) step" where
  "peak_hours_block g w days sid =
     m_bind (call_query w (GetPeakHours days sid)) (\<lambda>hours.
       case hours of
         None \<Rightarrow> m_return (ok_response ''Belum ada data jam operasional.'' DataEmpty)
       | Some h \<Rightarrow>
           m_bind (m_lift (render g PeakHours [h] [])) (\<lambda>text.
           m_return (ok_response text (Rows [h]))))"

definition get_peak_hours ::
  "'r given \<Rightarrow> 'r world \<Rightarrow> nat \<Rightarrow> string option \<Rightarrow> ('r response) step" where
  "get_peak_hours g w days sid =
     m_bind (ensure_tools_loaded w) (\<lambda>_ s.
       try_except (peak_hours_block g w days (effective_id sid s))
         (\<lambda>e. m_return (failure_response ''Gagal menganalisis jam sibuk.'' e)) s)"

text \<open>\<open>AnalyticsAgent.get_churned_customers\<close> and \<open>get_inactive_customers\<close>.\<close>

definition churned_block :: "'r given \<Rightarrow> 'r world \<Rightarrow> nat \<Rightarrow> ('r response) step" where
  "churned_block g w days =
     m_bind (call_query w (GetChurnedCustomers days)) (\<lambda>customers.
       case customers of
         None \<Rightarrow> m_return (ok_response (''Tidak ada pelanggan churn '' @ sym_party) DataEmpty)
       | Some c \<Rightarrow>
           m_bind (m_lift (render g Churned [c] [])) (\<lambda>text.
           m_return (ok_response text (Rows [c]))))"

definition get_churned_customers :: "'r given \<Rightarrow> 'r world \<Rightarrow> nat \<Rightarrow> ('r response) step" where
  "get_churned_customers g w days =
     m_bind (ensure_tools_loaded w) (\<lambda>_.
       try_except (churned_block g w days)
         (\<lambda>e. m_return (failure_response ''Gagal menganalisis pelanggan churn.'' e)))"

definition inactive_block :: "'r given \<Rightarrow> 'r world \<Rightarrow> nat \<Rightarrow> ('r response) step" where
  "inactive_block g w days =
     m_bind (call_query w (GetInactiveCustomers days)) (\<lambda>customers.
       case customers of
         None \<Rightarrow> m_return (ok_response (''Semua pelanggan aktif '' @ sym_party) DataEmpty)
       | Some c \<Rightarrow>
           m_bind (m_lift (render g Inactive [c] [])) (\<lambda>text.
           m_return (ok_response text (Rows [c]))))"

definition get_inactive_customers :: "'r given \<Rightarrow> 'r world \<Rightarrow> nat \<Rightarrow> ('r response) step" where
  "get_inactive_customers g w days =
     m_bind (ensure_tools_loaded w) (\<lambda>_.
       try_except (inactive_block g w days)
         (\<lambda>e. m_return (failure_response ''Gagal menganalisis pelanggan tidak aktif.'' e)))"

text \<open>\<open>AnalyticsAgent.get_customer_points\<close>.\<close>

definition customer_points_block :: "'r given \<Rightarrow> 'r world \<Rightarrow> string \<Rightarrow> ('r response) step" where
  "customer_points_block g w phone =
     m_bind (call_query w (GetCustomerPoints phone)) (\<lambda>result.
       case result of
         None \<Rightarrow>
           m_return (ok_response
             (''Nomor tidak ditemukan dalam sistem. ''
              @ ''Pastikan nomor HP benar atau pelanggan sudah terdaftar.'') DataNone)
       | Some customer \<Rightarrow>
           m_bind (m_lift (render g CustomerPoints [customer] [])) (\<lambda>text.
           m_return (ok_response text (Rows [customer]))))"

definition get_customer_points :: "'r given \<Rightarrow> 'r world \<Rightarrow> string \<Rightarrow> ('r response) step" where
  "get_customer_points g w phone =
     m_bind (ensure_tools_loaded w) (\<lambda>_.
       try_except (customer_points_block g w phone)
         (\<lambda>e. m_return (failure_response ''Gagal mengambil data poin.'' e)))"

text \<open>\<open>AnalyticsAgent.get_points_summary\<close>: the effective store id is
  \<open>store_id if store_id else self._store_id\<close>, and the request for a store is written out
  in the method itself.\<close>

definition ask_points_store :: "'r given \<Rightarrow> 'r world \<Rightarrow> ('r response) step" where
  "ask_points_store g w s =
     (let s1 = load_store_cache w s;
          text = sym_chart @ '' *Ringkasan Poin*'' @ nl @ nl
                 @ ''Mohon sebutkan nama toko untuk melihat ringkasan poin.'' @ nl @ nl
                 @ ''Contoh: `ringkasan poin toko [nama toko]`'' @ nl @ nl
                 @ sym_store @ '' *Toko tersedia:*''
                 @ store_lines (title g) (store_cache s1)
      in (Inr (ok_response text RequiresStore), s1))"

definition points_summary_block :: "'r given \<Rightarrow> 'r world \<Rightarrow> string \<Rightarrow> ('r response) step" where
  "points_summary_block g w sid =
     m_bind (call_query w (GetPointsSummaryByStore sid)) (\<lambda>result.
       case result of
         None \<Rightarrow> m_return (ok_response ''Belum ada data poin untuk toko ini.'' DataNone)
       | Some summary \<Rightarrow>
           m_bind (get_store_name_by_id w sid) (\<lambda>store_name.
           m_bind (m_lift (render g PointsSummary [summary] store_name)) (\<lambda>text.
           m_return (ok_response text (Rows [summary])))))"

definition points_effective_id :: "string option \<Rightarrow> agent \<Rightarrow> string" where
  "points_effective_id sid s =
     (case sid of Some x \<Rightarrow> (if x \<noteq> [] then x else store_id s) | None \<Rightarrow> store_id s)"

definition get_points_summary ::
  "'r given \<Rightarrow> 'r world \<Rightarrow> string option \<Rightarrow> ('r response) step" where
  "get_points_summary g w sid =
     m_bind (ensure_tools_loaded w) (\<lambda>_ s.
       if points_effective_id sid s = [] then ask_points_store g w s
       else try_except (points_summary_block g w (points_effective_id sid s))
              (\<lambda>e. m_return (failure_response ''Gagal mengambil ringkasan poin.'' e)) s)"

text \<open>\<open>AnalyticsAgent.list_stores\<close>: the stores fetched are put into the cache as they
  came, before the listing is rendered.\<close>

definition update_store_cache :: "store list \<Rightarrow> unit step" where
  "update_store_cache stores s = (Inr (), s\<lparr>store_cache := cache_raw stores (store_cache s)\<rparr>)"

definition list_stores_block :: "'r given \<Rightarrow> 'r world \<Rightarrow> ('r response) step" where
  "list_stores_block g w =
     m_bind (call_list_stores w) (\<lambda>stores.
       if stores = [] then
         m_return (ok_response ''Tidak ada toko terdaftar dalam sistem.'' DataEmpty)
       else
         m_bind (update_store_cache stores) (\<lambda>_.
         m_bind (m_lift (render_stores g stores)) (\<lambda>text.
         m_return (ok_response text (Stores stores)))))"

definition list_stores :: "'r given \<Rightarrow> 'r world \<Rightarrow> ('r response) step" where
  "list_stores g w =
     m_bind (ensure_tools_loaded w) (\<lambda>_.
       try_except (list_stores_block g w)
         (\<lambda>e. m_return (failure_response ''Gagal mengambil daftar toko dari database.'' e)))"

text \<open>\<open>AnalyticsAgent.get_store_by_name\<close>: no \<open>try\<close> block; the only call to the data
  store is the one of \<open>_load_store_cache\<close>.\<close>

definition store_text :: "store \<Rightarrow> string" where
  "store_text st =
     sym_store @ '' *'' @ st_name st @ ''*'' @ nl
     @ sym_pin @ '' '' @ (case st_address st of Some a \<Rightarrow> a | None \<Rightarrow> ''-'') @ nl
     @ sym_phone @ '' '' @ (case st_phone st of Some p \<Rightarrow> p | None \<Rightarrow> ''-'')"

definition get_store_by_name :: "'r world \<Rightarrow> string \<Rightarrow> ('r response) step" where
  "get_store_by_name w name s =
     (let s1 = load_store_cache w s;
          name_lower = py_lower name
      in case map_of (store_cache s1) name_lower of
           Some st \<Rightarrow> (Inr (ok_response (store_text st) (OneStore st)), s1)
         | None \<Rightarrow>
             (case find (\<lambda>(store_name, store_info). py_in name_lower store_name)
                     (store_cache s1) of
                Some (store_name, store_info) \<Rightarrow>
                  (Inr (ok_response (store_text store_info) (OneStore store_info)), s1)
              | None \<Rightarrow>
                  (Inr \<lparr>success = False,
                        response = ''Toko '' @ [CHR 0x27] @ name @ [CHR 0x27]
                          @ '' tidak ditemukan. Gunakan '' @ [CHR 0x27] @ ''daftar toko''
                          @ [CHR 0x27] @ '' untuk melihat toko yang tersedia.'',
                        data = Some DataNone, error = None, ai_generated = False\<rparr>, s1)))"

text \<open>\<open>AnalyticsAgent._handle_complex_query\<close>: without a completion client a failure
  without \<open>error\<close>; otherwise three queries for all stores and the client's answer.\<close>

definition m_generate :: "(string \<Rightarrow> llm_outcome) \<Rightarrow> string \<Rightarrow> string step" where
  "m_generate client prompt =
     m_lift (case client prompt of
               LlmRaises e \<Rightarrow> Inl e
             | LlmNoResponse \<Rightarrow> Inl ''AttributeError''
             | LlmText t \<Rightarrow> Inr t)"

definition complex_block ::
  "'r given \<Rightarrow> 'r world \<Rightarrow> (string \<Rightarrow> llm_outcome) \<Rightarrow> string \<Rightarrow> ('r response) step" where
  "complex_block g w client query =
     m_bind (call_query w (GetDailyRevenue [] [])) (\<lambda>daily.
     m_bind (call_query w (GetWeeklyRevenue [])) (\<lambda>weekly.
     m_bind (call_query w (GetPopularServices 30 5 [])) (\<lambda>services.
     m_bind (m_generate client
               (complex_prompt g (opt_list daily @ opt_list weekly @ opt_list services) query))
       (\<lambda>text.
     m_return ((ok_response text (Rows (opt_list daily @ opt_list weekly @ opt_list services)))
                 \<lparr>ai_generated := True\<rparr>)))))"

definition handle_complex_query ::
  "'r given \<Rightarrow> 'r world \<Rightarrow> gemini_client \<Rightarrow> string \<Rightarrow> ('r response) step" where
  "handle_complex_query g w gemini query =
     (case gemini of
        None \<Rightarrow>
          m_return \<lparr>success = False,
                    response = ''Maaf, pertanyaan ini membutuhkan analisis AI ''
                               @ ''yang tidak tersedia saat ini.'',
                    data = Some DataNone, error = None, ai_generated = False\<rparr>
      | Some client \<Rightarrow>
          try_except (complex_block g w client query)
            (\<lambda>e. m_return (failure_response ''Gagal memproses pertanyaan analitik.'' e)))"

text \<open>The handlers, each with its arguments, and running one of them.\<close>

datatype handler =
    HDaily "string option" "string option"
  | HWeekly "string option"
  | HMonthly "string option"
  | HCompare string "string option"
  | HTopServices nat nat "string option"
  | HPeakHours nat "string option"
  | HChurned nat
  | HInactive nat
  | HCustomerPoints string
  | HPointsSummary "string option"
  | HListStores
  | HStoreByName string
  | HComplex string

fun run_handler ::
  "'r given \<Rightarrow> 'r world \<Rightarrow> gemini_client \<Rightarrow> handler \<Rightarrow> ('r response) step" where
  "run_handler g w gem (HDaily date sid) = get_daily_report g w date sid"
| "run_handler g w gem (HWeekly sid) = get_weekly_report g w sid"
| "run_handler g w gem (HMonthly sid) = get_monthly_report g w sid"
| "run_handler g w gem (HCompare p sid) = compare_periods g w p sid"
| "run_handler g w gem (HTopServices days limit sid) = get_top_services g w days limit sid"
| "run_handler g w gem (HPeakHours days sid) = get_peak_hours g w days sid"
| "run_handler g w gem (HChurned days) = get_churned_customers g w days"
| "run_handler g w gem (HInactive days) = get_inactive_customers g w days"
| "run_handler g w gem (HCustomerPoints phone) = get_customer_points g w phone"
| "run_handler g w gem (HPointsSummary sid) = get_points_summary g w sid"
| "run_handler g w gem HListStores = list_stores g w"
| "run_handler g w gem (HStoreByName name) = get_store_by_name w name"
| "run_handler g w gem (HComplex query) = handle_complex_query g w gem query"

text \<open>The message of a handler's \<open>except\<close> clause.\<close>

fun failure_message :: "handler \<Rightarrow> string" where
  "failure_message (HDaily date sid) = ''Gagal mengambil laporan harian.''"
| "failure_message (HWeekly sid) = ''Gagal mengambil laporan mingguan.''"
| "failure_message (HMonthly sid) = ''Gagal mengambil laporan bulanan.''"
| "failure_message (HCompare p sid) = ''Gagal membandingkan periode.''"
| "failure_message (HTopServices days limit sid) = ''Gagal mengambil data layanan populer.''"
| "failure_message (HPeakHours days sid) = ''Gagal menganalisis jam sibuk.''"
| "failure_message (HChurned days) = ''Gagal menganalisis pelanggan churn.''"
| "failure_message (HInactive days) = ''Gagal menganalisis pelanggan tidak aktif.''"
| "failure_message (HCustomerPoints phone) = ''Gagal mengambil data poin.''"
| "failure_message (HPointsSummary sid) = ''Gagal mengambil ringkasan poin.''"
| "failure_message HListStores = ''Gagal mengambil daftar toko dari database.''"
| "failure_message (HStoreByName name) = []"
| "failure_message (HComplex query) = ''Gagal memproses pertanyaan analitik.''"

text \<open>The handlers that ask for a store when the effective store id is empty.\<close>

fun needs_store :: "handler \<Rightarrow> agent \<Rightarrow> bool" where
  "needs_store (HDaily date sid) s = (effective_id sid s = [])"
| "needs_store (HWeekly sid) s = (effective_id sid s = [])"
| "needs_store (HMonthly sid) s = (effective_id sid s = [])"
| "needs_store (HCompare p sid) s = (effective_id sid s = [])"
| "needs_store (HPointsSummary sid) s = (points_effective_id sid s = [])"
| "needs_store _ s = False"

text \<open>The handlers whose first statement is \<open>_ensure_tools_loaded\<close>: all but the store
  lookup by name and the handler of complex queries.\<close>

fun uses_tools :: "handler \<Rightarrow> bool" where
  "uses_tools (HStoreByName name) = False"
| "uses_tools (HComplex query) = False"
| "uses_tools _ = True"

text \<open>The invariant of the store cache: every cached \<open>id\<close> is a string that
  \<open>_format_uuid\<close> leaves as it is.\<close>

definition cache_ids_normalized :: "agent \<Rightarrow> bool" where
  "cache_ids_normalized s =
     list_all (\<lambda>(name, st). st_id st = VStr (format_uuid (st_id st))) (store_cache s)"

text \<open>A concrete agent with its tools loaded and no store, a fresh one whose tools are
  not loaded yet, a store whose \<open>id\<close> comes as 32 hexadecimal digits without dashes, and
  three worlds: one that answers every call, one
  whose report queries fail, one whose store list fails.\<close>

definition example_given :: "unit given" where
  "example_given =
     \<lparr>render = (\<lambda>kind rows name. Inr name), render_stores = (\<lambda>stores. Inr []),
      title = (\<lambda>name. name), complex_prompt = (\<lambda>rows query. query)\<rparr>"

definition example_agent :: agent where
  "example_agent = \<lparr>tools_loaded = True, store_id = [], store_cache = [], calls = []\<rparr>"

definition fresh_agent :: agent where
  "fresh_agent = \<lparr>tools_loaded = False, store_id = [], store_cache = [], calls = []\<rparr>"

definition example_store :: store where
  "example_store =
     \<lparr>st_name = ''Laundry Sudirman'', st_id = VStr ''29edf3ae6ac342b3abf890494dcdc7c5'',
      st_address = None, st_phone = None\<rparr>"

definition example_world :: "unit world" where
  "example_world =
     \<lparr>w_load_tools = (\<lambda>n. None), w_list_stores = (\<lambda>n. Inr [example_store]),
      w_query = (\<lambda>n c. Inr (Some ()))\<rparr>"

definition world_queries_down :: "unit world" where
  "world_queries_down =
     \<lparr>w_load_tools = (\<lambda>n. None), w_list_stores = (\<lambda>n. Inr [example_store]),
      w_query = (\<lambda>n c. Inl ''connection refused'')\<rparr>"

definition world_stores_down :: "unit world" where
  "world_stores_down =
     \<lparr>w_load_tools = (\<lambda>n. None), w_list_stores = (\<lambda>n. Inl ''connection refused''),
      w_query = (\<lambda>n c. Inr (Some ()))\<rparr>"

text \<open>A world in which loading the tools fails.\<close>

definition world_tools_down :: "unit world" where
  "world_tools_down =
     \<lparr>w_load_tools = (\<lambda>n. Some ''connection refused''),
      w_list_stores = (\<lambda>n. Inr [example_store]), w_query = (\<lambda>n c. Inr (Some ()))\<rparr>"

section \<open>Following the exceptions of report queries\<close>

text \<open>
  \<open>raised_at w s s' i e\<close>: the call number \<open>i\<close>, made between the states \<open>s\<close> and \<open>s'\<close>, is
  a report query (not the loading of the tools, not the fetch of the store list) and
  raised \<open>e\<close>.  A step \<open>qtracks\<close> its queries when it only adds calls and leaves with the
  exception of any query of its own that raised.
\<close>

definition is_report_query :: "tool_call \<Rightarrow> bool" where
  "is_report_query c = (c \<noteq> LoadAnalyticsTools \<and> c \<noteq> ListStores)"

definition raised_at :: "'r world \<Rightarrow> agent \<Rightarrow> agent \<Rightarrow> nat \<Rightarrow> string \<Rightarrow> bool" where
  "raised_at w s s' i e =
     (length (calls s) \<le> i \<and> i < length (calls s') \<and> is_report_query (calls s' ! i)
      \<and> w_query w i (calls s' ! i) = Inl e)"

definition qtracks :: "'r world \<Rightarrow> 'a step \<Rightarrow> bool" where
  "qtracks w m =
     (\<forall>s. prefix (calls s) (calls (snd (m s)))
          \<and> (\<forall>i e. raised_at w s (snd (m s)) i e \<longrightarrow> fst (m s) = Inl e))"

section \<open>Properties of the store match score\<close>

lemma score_words_sum:
  "score_words uniq ws query acc =
     acc + (\<Sum>w\<leftarrow>ws. if py_in w query then (if w \<in> set uniq then 1 + 2 else 1) else 0)"
  by (induction ws arbitrary: acc) auto

lemma unique_words_iff:
  "w \<in> set (store_words store_name) \<Longrightarrow>
     w \<in> set (unique_words store_name) \<longleftrightarrow> w \<notin> set common_words"
  by (simp add: unique_words_def)

text \<open>
  C3 (as the code has it).  The score is one point for each word of the store name
  (split at white space, longer than one character) that occurs in the query, two more
  points when that word is outside the stop set, and five points when the whole store
  name occurs in the query.  For the store name "ruang laundry sudirman" the query
  "laporan toko sudirman" scores 3, which is more than 2, and the query "toko laundry"
  scores 1: the common word "laundry" still earns its single point.
\<close>

theorem store_match_score_formula:
  "calculate_store_match_score store_name query =
     (\<Sum>w\<leftarrow>store_words store_name.
        if py_in w query then (if w \<in> set common_words then 1 else 1 + 2) else 0)
     + (if py_in store_name query then 5 else 0)
   \<and> calculate_store_match_score ''ruang laundry sudirman'' ''laporan toko sudirman'' = 3
   \<and> calculate_store_match_score ''ruang laundry sudirman'' ''laporan toko sudirman'' > 2
   \<and> calculate_store_match_score ''ruang laundry sudirman'' ''toko laundry'' = 1"
proof -
  have formula: "calculate_store_match_score store_name query =
     (\<Sum>w\<leftarrow>store_words store_name.
        if py_in w query then (if w \<in> set common_words then 1 else 1 + 2) else 0)
     + (if py_in store_name query then 5 else 0)"
    unfolding calculate_store_match_score_def Let_def score_words_sum
    by (auto intro!: arg_cong[where f=sum_list] map_cong simp: unique_words_iff)
  have sudirman:
    "calculate_store_match_score ''ruang laundry sudirman'' ''laporan toko sudirman'' = 3"
    by code_simp
  have common: "calculate_store_match_score ''ruang laundry sudirman'' ''toko laundry'' = 1"
    by code_simp
  from formula sudirman common show ?thesis by simp
qed

text \<open>
  C3 as the specification words it: the query "toko laundry", made of common words only,
  would score 0 for the store "ruang laundry sudirman".  It does not.
\<close>

theorem store_match_score_common_only_counterexample:
  "calculate_store_match_score ''ruang laundry sudirman'' ''toko laundry'' \<noteq> 0"
  by code_simp

section \<open>Properties of the keyword stage\<close>

lemma keyword_intent_first_true:
  "cl_intent (classify_intent_with_keywords q) = JStr (first_true keyword_priority q)"
  by (simp add: classify_intent_with_keywords_def keyword_priority_def Let_def
      split: option.splits)

lemma first_true_none: "(\<forall>(p, i) \<in> set ps. \<not> p q) \<Longrightarrow> first_true ps q = ''general''"
  by (induction ps q rule: first_true.induct) auto

text \<open>
  C1.  The intent of the keyword stage is the intent of the first predicate that holds, in
  the order comparison, store list, store detail, daily, weekly, monthly, popular services,
  peak hours, churned customers, inactive customers, points summary, points redeem,
  points earn, points info, points check.  A message with a comparison keyword and a
  monthly keyword is classified \<open>compare_periods\<close>, not \<open>monthly_revenue\<close>; a message on
  which no predicate holds is classified \<open>general\<close>.
\<close>

theorem keyword_stage_priority:
  "cl_intent (classify_intent_with_keywords q) = JStr (first_true keyword_priority q)
   \<and> (is_comparison_query q \<and> is_monthly_query q \<longrightarrow>
        cl_intent (classify_intent_with_keywords q) = JStr ''compare_periods''
        \<and> cl_intent (classify_intent_with_keywords q) \<noteq> JStr ''monthly_revenue'')
   \<and> ((\<forall>(p, i) \<in> set keyword_priority. \<not> p q) \<longrightarrow>
        cl_intent (classify_intent_with_keywords q) = JStr ''general'')"
proof (intro conjI impI)
  show "cl_intent (classify_intent_with_keywords q) = JStr (first_true keyword_priority q)"
    by (rule keyword_intent_first_true)
next
  assume "is_comparison_query q \<and> is_monthly_query q"
  then show "cl_intent (classify_intent_with_keywords q) = JStr ''compare_periods''"
    by (simp add: classify_intent_with_keywords_def Let_def split: option.splits)
  then show "cl_intent (classify_intent_with_keywords q) \<noteq> JStr ''monthly_revenue''"
    by simp
next
  assume "\<forall>(p, i) \<in> set keyword_priority. \<not> p q"
  then show "cl_intent (classify_intent_with_keywords q) = JStr ''general''"
    by (simp add: keyword_intent_first_true first_true_none)
qed

theorem keyword_stage_priority_witness:
  "is_comparison_query ''bandingkan pendapatan bulan ini''
   \<and> is_monthly_query ''bandingkan pendapatan bulan ini''
   \<and> cl_intent (classify_intent_with_keywords ''bandingkan pendapatan bulan ini'')
       = JStr ''compare_periods''
   \<and> \<not> list_ex (\<lambda>(p, i). p ''halo'') keyword_priority
   \<and> cl_intent (classify_intent_with_keywords ''halo'') = JStr ''general''"
proof -
  have h1: "is_comparison_query ''bandingkan pendapatan bulan ini''
            \<and> is_monthly_query ''bandingkan pendapatan bulan ini''"
    by code_simp
  have h2: "\<forall>(p, i) \<in> set keyword_priority. \<not> p ''halo''"
    by code_simp
  from h1 h2 keyword_stage_priority [of "''bandingkan pendapatan bulan ini''"]
    keyword_stage_priority [of "''halo''"]
  show ?thesis unfolding list_ex_iff by blast
qed

section \<open>Properties of UUID normalisation\<close>


lemma length_bytes_hex: "length (bytes_hex b) = 2 * length b"
  by (induction b) (simp_all add: bytes_hex_def hex_byte_def)

lemma length_dashed: "length h = 32 \<Longrightarrow> length (dashed h) = 36"
  by (simp add: dashed_def)

lemma hexdigit_lower: "is_lower_hex (hexdigit n)"
proof -
  have "n mod 16 < length ''0123456789abcdef''" by simp
  then have "''0123456789abcdef'' ! (n mod 16) \<in> set ''0123456789abcdef''"
    by (rule nth_mem)
  then show ?thesis by (simp only: hexdigit_def is_lower_hex_def)
qed

lemma bytes_hex_lower: "list_all is_lower_hex (bytes_hex b)"
  by (induction b) (simp_all add: bytes_hex_def hex_byte_def hexdigit_lower)

lemma format_02x_byte:
  assumes "is_byte_value x"
  shows "format_02x x = hex_byte (word_of_int x)"
proof -
  from assms have r: "0 \<le> x" "x < 256" by (simp_all add: is_byte_value_def)
  then have u: "unat (word_of_int x :: 8 word) = nat x"
    by (simp add: unat_eq_nat_uint uint_word_of_int)
  have h0: "hexdigit 0 = CHR ''0''" by (simp add: hexdigit_def)
  show ?thesis
  proof (cases "x < 16")
    case True
    with r have "nat x < 16" by simp
    then show ?thesis using True r by (simp add: format_02x_def hex_byte_def u h0)
  next
    case False
    with r have "\<not> nat x < 16" "nat x div 16 < 16" by simp_all
    then show ?thesis using False r
      by (simp add: format_02x_def hex_byte_def u)
  qed
qed

lemma concat_format_02x:
  "list_all is_byte_value xs \<Longrightarrow> concat (map format_02x xs) = bytes_hex (map word_of_int xs)"
  by (induction xs) (simp_all add: bytes_hex_def format_02x_byte)






lemma is_lower_hex_is_hex: "is_lower_hex c \<Longrightarrow> is_hex c"
  by (auto simp: is_lower_hex_def is_hex_def)

lemma list_all_lower_hex_hex: "list_all is_lower_hex h \<Longrightarrow> list_all is_hex h"
  by (induction h) (simp_all add: is_lower_hex_is_hex)





lemma dashed_uuid_decompose:
  assumes "is_dashed_uuid s"
  shows "s = take 8 s @ ''-'' @ take 4 (drop 9 s) @ ''-'' @ take 4 (drop 14 s) @ ''-''
             @ take 4 (drop 19 s) @ ''-'' @ drop 24 s"
proof -
  from assms have len: "length s = 36" and d: "s ! 8 = CHR ''-''" "s ! 13 = CHR ''-''"
    "s ! 18 = CHR ''-''" "s ! 23 = CHR ''-''"
    by (simp_all add: is_dashed_uuid_def)
  have a: "s = take 8 s @ drop 8 s" by simp
  have b: "drop 8 s = CHR ''-'' # drop 9 s"
    using Cons_nth_drop_Suc [of 8 s] len d by simp
  have c: "drop 9 s = take 4 (drop 9 s) @ drop 13 s"
    using append_take_drop_id [of 4 "drop 9 s"] by simp
  have e: "drop 13 s = CHR ''-'' # drop 14 s"
    using Cons_nth_drop_Suc [of 13 s] len d by simp
  have f: "drop 14 s = take 4 (drop 14 s) @ drop 18 s"
    using append_take_drop_id [of 4 "drop 14 s"] by simp
  have g: "drop 18 s = CHR ''-'' # drop 19 s"
    using Cons_nth_drop_Suc [of 18 s] len d by simp
  have h: "drop 19 s = take 4 (drop 19 s) @ drop 23 s"
    using append_take_drop_id [of 4 "drop 19 s"] by simp
  have i: "drop 23 s = CHR ''-'' # drop 24 s"
    using Cons_nth_drop_Suc [of 23 s] len d by simp
  show ?thesis
    by (subst a, subst b, subst c, subst e, subst f, subst g, subst h, subst i) simp
qed

lemma hex_no_dash: "list_all is_hex g \<Longrightarrow> filter (\<lambda>c. c \<noteq> CHR ''-'') g = g"
  by (induction g) (auto simp: is_hex_def)

lemma dashed_uuid_digits:
  assumes "is_dashed_uuid s"
  shows "length (filter (\<lambda>c. c \<noteq> CHR ''-'') s) = 32"
    and "dashed (filter (\<lambda>c. c \<noteq> CHR ''-'') s) = s"
    and "list_all is_hex (filter (\<lambda>c. c \<noteq> CHR ''-'') s)"
proof -
  define a b c d e where "a = take 8 s" and "b = take 4 (drop 9 s)"
    and "c = take 4 (drop 14 s)" and "d = take 4 (drop 19 s)" and "e = drop 24 s"
  from assms have len: "length s = 36" by (simp add: is_dashed_uuid_def)
  then have l: "length a = 8" "length b = 4" "length c = 4" "length d = 4" "length e = 12"
    by (simp_all add: a_def b_def c_def d_def e_def)
  from assms have hx: "list_all is_hex a" "list_all is_hex b" "list_all is_hex c"
    "list_all is_hex d" "list_all is_hex e"
    by (simp_all add: is_dashed_uuid_def a_def b_def c_def d_def e_def)
  have s: "s = a @ ''-'' @ b @ ''-'' @ c @ ''-'' @ d @ ''-'' @ e"
    unfolding a_def b_def c_def d_def e_def by (rule dashed_uuid_decompose [OF assms])
  have f: "filter (\<lambda>c. c \<noteq> CHR ''-'') s = a @ b @ c @ d @ e"
    by (subst s) (simp add: hex_no_dash hx)
  show "length (filter (\<lambda>c. c \<noteq> CHR ''-'') s) = 32" by (simp add: f l)
  show "dashed (filter (\<lambda>c. c \<noteq> CHR ''-'') s) = s"
    unfolding f by (subst s) (simp add: dashed_def l)
  show "list_all is_hex (filter (\<lambda>c. c \<noteq> CHR ''-'') s)"
    unfolding f using hx by simp
qed


lemma format_uuid_str_36: "length s = 36 \<Longrightarrow> format_uuid (VStr s) = s"
  by (auto simp: format_uuid_def)

lemma accepted_digits:
  assumes "accepted_encoding v"
  shows "format_uuid v = dashed (uuid_digits v)" and "length (uuid_digits v) = 32"
    and "list_all is_hex (uuid_digits v)"
proof -
  have "format_uuid v = dashed (uuid_digits v) \<and> length (uuid_digits v) = 32
        \<and> list_all is_hex (uuid_digits v)"
  proof (cases v)
    case (VStr s)
    show ?thesis
    proof (cases "is_dashed_uuid s")
      case True
      then have "length s = 36" by (simp add: is_dashed_uuid_def)
      with True VStr show ?thesis
        by (simp add: format_uuid_str_36 dashed_uuid_digits)
    next
      case False
      with assms VStr have h: "length s = 32" "list_all is_hex s" by simp_all
      then have "s \<noteq> []" by auto
      with h VStr show ?thesis by (simp add: format_uuid_def hex_no_dash)
    qed
  next
    case (VBytes b)
    with assms have "length b = 16" by simp
    then have "b \<noteq> []" by auto
    with VBytes \<open>length b = 16\<close> show ?thesis
      by (simp add: format_uuid_def length_bytes_hex list_all_lower_hex_hex bytes_hex_lower)
  next
    case (VList xs)
    with assms have h: "length xs = 16" "list_all is_byte_value xs" by simp_all
    then have "xs \<noteq> []" by auto
    with VList h show ?thesis
      by (simp add: format_uuid_def concat_format_02x length_bytes_hex
          list_all_lower_hex_hex bytes_hex_lower)
  next
    case (VTuple xs)
    with assms have h: "length xs = 16" "list_all is_byte_value xs" by simp_all
    then have "xs \<noteq> []" by auto
    with VTuple h show ?thesis
      by (simp add: format_uuid_def concat_format_02x length_bytes_hex
          list_all_lower_hex_hex bytes_hex_lower)
  qed (use assms in simp_all)
  then show "format_uuid v = dashed (uuid_digits v)" and "length (uuid_digits v) = 32"
    and "list_all is_hex (uuid_digits v)" by simp_all
qed









text \<open>
  C7.  A canonical dashed UUID string is returned unchanged, and normalising the result of
  normalising an accepted encoding changes nothing.
\<close>

theorem format_uuid_idempotent:
  "(is_canonical_uuid u \<longrightarrow> format_uuid (VStr u) = u)
   \<and> (accepted_encoding v \<longrightarrow> format_uuid (VStr (format_uuid v)) = format_uuid v)"
proof (intro conjI impI)
  assume "is_canonical_uuid u"
  then have "length u = 36" by (simp add: is_canonical_uuid_def is_dashed_uuid_def)
  then show "format_uuid (VStr u) = u" by (rule format_uuid_str_36)
next
  assume "accepted_encoding v"
  then have "length (format_uuid v) = 36"
    by (simp add: accepted_digits length_dashed)
  then show "format_uuid (VStr (format_uuid v)) = format_uuid v" by (rule format_uuid_str_36)
qed

theorem format_uuid_idempotent_witness:
  "is_canonical_uuid ''29edf3ae-6ac3-42b3-abf8-90494dcdc7c5''
   \<and> format_uuid (VStr ''29edf3ae-6ac3-42b3-abf8-90494dcdc7c5'')
       = ''29edf3ae-6ac3-42b3-abf8-90494dcdc7c5''
   \<and> accepted_encoding (VStr ''29EDF3AE6AC342B3ABF890494DCDC7C5'')
   \<and> format_uuid (VStr (format_uuid (VStr ''29EDF3AE6AC342B3ABF890494DCDC7C5'')))
       = format_uuid (VStr ''29EDF3AE6AC342B3ABF890494DCDC7C5'')"
proof -
  have h1: "is_canonical_uuid ''29edf3ae-6ac3-42b3-abf8-90494dcdc7c5''" by code_simp
  have h2: "accepted_encoding (VStr ''29EDF3AE6AC342B3ABF890494DCDC7C5'')" by code_simp
  from h1 h2
    format_uuid_idempotent [of "''29edf3ae-6ac3-42b3-abf8-90494dcdc7c5''"
      "VStr ''29EDF3AE6AC342B3ABF890494DCDC7C5''"]
  show ?thesis by blast
qed

section \<open>Properties of phone number extraction\<close>


lemma length_takeWhile_take:
  "length (takeWhile P (take n xs)) = min n (length (takeWhile P xs))"
proof (induction xs arbitrary: n)
  case Nil
  then show ?case by simp
next
  case (Cons x xs)
  then show ?case by (cases n) simp_all
qed

lemma takeWhile_take_prefix: "prefix (takeWhile P (take n xs)) xs"
  by (metis prefix_order.order_trans take_is_prefix takeWhile_is_prefix)

lemma country_prefix_Some:
  assumes "country_prefix s = Some (pre, rest)"
  shows "s = pre @ rest" and "pre \<in> set [''0'', ''62'', ''+62'']"
proof -
  have "s = pre @ rest \<and> pre \<in> set [''0'', ''62'', ''+62'']"
    using assms unfolding country_prefix_def
    by (auto split: if_splits simp: prefix_def)
  then show "s = pre @ rest" and "pre \<in> set [''0'', ''62'', ''+62'']" by simp_all
qed

lemma digit_1_9_0_9: "digit_1_9 c \<Longrightarrow> digit_0_9 c"
  unfolding digit_1_9_def digit_0_9_def by simp

lemma phone_shapeI:
  assumes "pre \<in> set [''0'', ''62'', ''+62'']" "list_all digit_0_9 ds"
    "lo \<le> length ds" "length ds \<le> hi"
  shows "phone_shape lo hi (pre @ CHR ''8'' # ds)"
  using assms unfolding phone_shape_def list_ex_iff
  by (intro bexI [of _ pre]) simp_all

lemma match_mobile_Some:
  assumes "match_mobile s = Some m"
  shows "prefix m s" and "phone_shape 8 11 m" and "spec_phone_at s \<noteq> None"
proof -
  from assms obtain pre rest where cp: "country_prefix s = Some (pre, rest)"
    unfolding match_mobile_def by (auto split: option.splits)
  with assms obtain d ds where rest: "rest = CHR ''8'' # d # ds" and d: "digit_1_9 d"
    and len: "7 \<le> length (takeWhile digit_0_9 (take 10 ds))"
    and m: "m = pre @ CHR ''8'' # d # takeWhile digit_0_9 (take 10 ds)"
    unfolding match_mobile_def
    by (auto split: list.splits if_splits simp: Let_def)
  note s = country_prefix_Some [OF cp]
  show "prefix m s"
    unfolding m s(1) rest by (simp add: takeWhile_take_prefix)
  have "list_all digit_0_9 (d # takeWhile digit_0_9 (take 10 ds))"
    using d by (auto simp: list_all_iff digit_1_9_0_9 dest: set_takeWhileD)
  moreover have "length (takeWhile digit_0_9 (take 10 ds)) \<le> 10"
    by (simp add: length_takeWhile_take)
  ultimately show "phone_shape 8 11 m"
    unfolding m using len s(2) by (intro phone_shapeI) simp_all
  have "8 \<le> length (takeWhile digit_0_9 (take 12 (d # ds)))"
    using len d by (simp add: digit_1_9_0_9 length_takeWhile_take)
  then show "spec_phone_at s \<noteq> None"
    unfolding spec_phone_at_def cp rest by (simp add: Let_def)
qed

lemma country_prefix_08: "country_prefix (CHR ''0'' # CHR ''8'' # rest) = Some (''0'', CHR ''8'' # rest)"
  by (simp add: country_prefix_def)

lemma match_local_Some:
  assumes "match_local prev s = Some m"
  shows "prefix m s" and "phone_shape 8 11 m" and "spec_phone_at s \<noteq> None"
proof -
  from assms obtain rest k where s: "s = CHR ''0'' # CHR ''8'' # rest"
    and f: "find (\<lambda>k. boundary_after (drop k rest))
              (rev [8..<Suc (length (takeWhile digit_0_9 (take 11 rest)))]) = Some k"
    and m: "m = CHR ''0'' # CHR ''8'' # take k rest"
    unfolding match_local_def
    by (auto split: list.splits if_splits option.splits simp: Let_def)
  define n where "n = length (takeWhile digit_0_9 (take 11 rest))"
  from f have "k \<in> set (rev [8..<Suc n])"
    unfolding n_def find_Some_iff by (metis nth_mem)
  then have k: "8 \<le> k" "k \<le> n" by auto
  have n: "n \<le> 11" "n \<le> length (takeWhile digit_0_9 rest)"
    unfolding n_def by (simp_all add: length_takeWhile_take)
  have tk: "take k rest = take k (takeWhile digit_0_9 rest)"
    using k n
    by (metis append_eq_conv_conj le_trans min.absorb2 take_append takeWhile_dropWhile_id
        take_take length_take)
  have digs: "list_all digit_0_9 (take k rest)"
    unfolding tk by (auto simp: list_all_iff dest: in_set_takeD set_takeWhileD)
  have lenk: "length (take k rest) = k"
    unfolding tk using k n by simp
  show "prefix m s" unfolding m s by (simp add: take_is_prefix)
  have "phone_shape 8 11 (''0'' @ CHR ''8'' # take k rest)"
    using digs lenk k n by (intro phone_shapeI) simp_all
  then show "phone_shape 8 11 m" unfolding m by simp
  have "8 \<le> length (takeWhile digit_0_9 (take 12 rest))"
    using k n by (simp add: length_takeWhile_take)
  then show "spec_phone_at s \<noteq> None"
    unfolding spec_phone_at_def s country_prefix_08 by (simp add: Let_def)
qed

lemma py_in_prefix: "prefix m s \<Longrightarrow> py_in m s"
  by (cases s) simp_all

lemma py_in_Cons: "py_in m cs \<Longrightarrow> py_in m (c # cs)"
  by simp

lemma search_mobile_Some:
  "search_mobile s = Some m \<Longrightarrow> py_in m s \<and> phone_shape 8 11 m"
proof (induction s)
  case Nil
  then show ?case by simp
next
  case (Cons c cs)
  show ?case
  proof (cases "match_mobile (c # cs)")
    case None
    with Cons show ?thesis by simp
  next
    case (Some m')
    with Cons.prems have "m' = m" by simp
    with Some match_mobile_Some [of "c # cs" m] show ?thesis
      by (simp add: py_in_prefix del: py_in.simps)
  qed
qed

lemma search_local_Some:
  "search_local prev s = Some m \<Longrightarrow> py_in m s \<and> phone_shape 8 11 m"
proof (induction s arbitrary: prev)
  case Nil
  then show ?case by simp
next
  case (Cons c cs)
  show ?case
  proof (cases "match_local prev (c # cs)")
    case None
    with Cons show ?thesis by simp
  next
    case (Some m')
    with Cons.prems have "m' = m" by simp
    with Some match_local_Some [of prev "c # cs" m] show ?thesis
      by (simp add: py_in_prefix del: py_in.simps)
  qed
qed

lemma search_mobile_None: "spec_first_phone s = None \<Longrightarrow> search_mobile s = None"
proof (induction s)
  case Nil
  then show ?case by simp
next
  case (Cons c cs)
  then have sp: "spec_phone_at (c # cs) = None" and r: "spec_first_phone cs = None"
    by (simp_all split: option.splits)
  from sp match_mobile_Some(3) [of "c # cs"] have "match_mobile (c # cs) = None"
    by (cases "match_mobile (c # cs)") simp_all
  with Cons.IH [OF r] show ?case by simp
qed

lemma search_local_None: "spec_first_phone s = None \<Longrightarrow> search_local prev s = None"
proof (induction s arbitrary: prev)
  case Nil
  then show ?case by simp
next
  case (Cons c cs)
  then have sp: "spec_phone_at (c # cs) = None" and r: "spec_first_phone cs = None"
    by (simp_all split: option.splits)
  from sp match_local_Some(3) [of prev "c # cs"] have "match_local prev (c # cs) = None"
    by (cases "match_local prev (c # cs)") simp_all
  with Cons.IH [OF r] show ?case by simp
qed

lemma mobile_shapeE:
  assumes "mobile_shape m"
  obtains pre d ds where "pre \<in> set [''+62'', ''62'', ''0'']" "m = pre @ CHR ''8'' # d # ds"
    "digit_1_9 d" "list_all digit_0_9 ds" "7 \<le> length ds" "length ds \<le> 10"
proof -
  from assms obtain pre where p: "pre \<in> set [''+62'', ''62'', ''0'']"
    and pf: "prefix (pre @ ''8'') m"
    and c: "case drop (length pre + 1) m of [] \<Rightarrow> False
            | d # ds \<Rightarrow> digit_1_9 d \<and> list_all digit_0_9 ds \<and> 7 \<le> length ds \<and> length ds \<le> 10"
    unfolding mobile_shape_def list_ex_iff by blast
  from pf obtain r where m: "m = (pre @ ''8'') @ r" by (auto simp: prefix_def)
  then have dr: "drop (length pre + 1) m = r" by simp
  with c obtain d ds where r: "r = d # ds" and "digit_1_9 d" "list_all digit_0_9 ds"
    "7 \<le> length ds" "length ds \<le> 10"
    by (cases r) auto
  with m p that [of pre d ds] show ?thesis by simp
qed

lemma mobile_shapeI:
  assumes "pre \<in> set [''+62'', ''62'', ''0'']" "digit_1_9 d" "list_all digit_0_9 ds"
    "7 \<le> length ds" "length ds \<le> 10"
  shows "mobile_shape (pre @ CHR ''8'' # d # ds)"
  using assms unfolding mobile_shape_def list_ex_iff
  by (intro bexI [of _ pre]) simp_all

lemma country_prefix_complete:
  "pre \<in> set [''+62'', ''62'', ''0''] \<Longrightarrow> country_prefix (pre @ r) = Some (pre, r)"
  by (auto simp: country_prefix_def)

lemma takeWhile_take_ge:
  assumes "list_all P ds" "length ds \<le> n"
  shows "length ds \<le> length (takeWhile P (take n (ds @ r)))"
proof -
  from assms(1) have "takeWhile P (ds @ r) = ds @ takeWhile P r"
    by (simp add: list_all_iff takeWhile_append2)
  then have "length (takeWhile P (take n (ds @ r))) = min n (length ds + length (takeWhile P r))"
    unfolding length_takeWhile_take by simp
  with assms(2) show ?thesis by simp
qed

lemma match_mobile_shape:
  assumes "match_mobile s = Some m"
  shows "prefix m s" and "mobile_shape m"
proof -
  from assms obtain pre rest where cp: "country_prefix s = Some (pre, rest)"
    unfolding match_mobile_def by (auto split: option.splits)
  with assms obtain d ds where rest: "rest = CHR ''8'' # d # ds" and d: "digit_1_9 d"
    and len: "7 \<le> length (takeWhile digit_0_9 (take 10 ds))"
    and m: "m = pre @ CHR ''8'' # d # takeWhile digit_0_9 (take 10 ds)"
    unfolding match_mobile_def
    by (auto split: list.splits if_splits simp: Let_def)
  note s = country_prefix_Some [OF cp]
  show "prefix m s"
    unfolding m s(1) rest by (simp add: takeWhile_take_prefix)
  have "list_all digit_0_9 (takeWhile digit_0_9 (take 10 ds))"
    by (auto simp: list_all_iff dest: set_takeWhileD)
  moreover have "length (takeWhile digit_0_9 (take 10 ds)) \<le> 10"
    by (simp add: length_takeWhile_take)
  moreover have "pre \<in> set [''+62'', ''62'', ''0'']"
    using s(2) by auto
  ultimately show "mobile_shape m"
    unfolding m using len d by (intro mobile_shapeI)
qed

lemma match_mobile_longest:
  assumes "prefix m' s" "mobile_shape m'"
  shows "\<exists>m. match_mobile s = Some m \<and> length m' \<le> length m"
proof -
  from assms(2) obtain pre d ds where p: "pre \<in> set [''+62'', ''62'', ''0'']"
    and m': "m' = pre @ CHR ''8'' # d # ds" and d: "digit_1_9 d"
    and ds: "list_all digit_0_9 ds" "7 \<le> length ds" "length ds \<le> 10"
    by (rule mobile_shapeE)
  from assms(1) m' obtain r where s: "s = pre @ CHR ''8'' # d # ds @ r"
    by (auto simp: prefix_def)
  have cp: "country_prefix s = Some (pre, CHR ''8'' # d # ds @ r)"
    unfolding s by (rule country_prefix_complete [OF p])
  have ge: "length ds \<le> length (takeWhile digit_0_9 (take 10 (ds @ r)))"
    by (rule takeWhile_take_ge [OF ds(1) ds(3)])
  with ds(2) have "7 \<le> length (takeWhile digit_0_9 (take 10 (ds @ r)))" by simp
  then have "match_mobile s = Some (pre @ CHR ''8'' # d # takeWhile digit_0_9 (take 10 (ds @ r)))"
    unfolding match_mobile_def cp using d by (simp add: Let_def)
  with ge m' show ?thesis by simp
qed

lemma search_mobile_leftmost:
  "search_mobile s = Some m \<Longrightarrow>
     \<exists>i\<le>length s. match_mobile (drop i s) = Some m
                   \<and> (\<forall>j<i. match_mobile (drop j s) = None)"
proof (induction s)
  case Nil
  then show ?case by simp
next
  case (Cons c cs)
  show ?case
  proof (cases "match_mobile (c # cs)")
    case (Some m')
    with Cons.prems have "match_mobile (drop 0 (c # cs)) = Some m" by simp
    then show ?thesis by (intro exI [of _ 0]) simp
  next
    case None
    with Cons.prems have "search_mobile cs = Some m" by simp
    from Cons.IH [OF this] obtain i where i: "i \<le> length cs"
      "match_mobile (drop i cs) = Some m" "\<forall>j<i. match_mobile (drop j cs) = None"
      by blast
    have "\<forall>j<Suc i. match_mobile (drop j (c # cs)) = None"
    proof (intro allI impI)
      fix j assume "j < Suc i"
      with None i(3) show "match_mobile (drop j (c # cs)) = None"
        by (cases j) simp_all
    qed
    with i(1,2) show ?thesis by (intro exI [of _ "Suc i"]) simp
  qed
qed

lemma match_mobile_Nil: "match_mobile [] = None"
  by (simp add: match_mobile_def country_prefix_def)

lemma search_mobile_none:
  "search_mobile s = None \<Longrightarrow> match_mobile (drop j s) = None"
proof (induction s arbitrary: j)
  case Nil
  then show ?case by (simp add: match_mobile_Nil)
next
  case (Cons c cs)
  then have "match_mobile (c # cs) = None" "search_mobile cs = None"
    by (simp_all split: option.splits)
  with Cons.IH show ?case by (cases j) simp_all
qed


lemma prev_char_Suc: "prev_char p (c # cs) (Suc i) = prev_char (Some c) cs i"
  by (cases i) (simp_all add: prev_char_def)

lemma match_local_Nil: "match_local p [] = None"
  by (simp add: match_local_def)

lemma search_local_leftmost:
  "search_local p s = Some m \<Longrightarrow>
     \<exists>i\<le>length s. match_local (prev_char p s i) (drop i s) = Some m
                   \<and> (\<forall>j<i. match_local (prev_char p s j) (drop j s) = None)"
proof (induction s arbitrary: p)
  case Nil
  then show ?case by simp
next
  case (Cons c cs)
  show ?case
  proof (cases "match_local p (c # cs)")
    case (Some m')
    with Cons.prems have "match_local (prev_char p (c # cs) 0) (drop 0 (c # cs)) = Some m"
      by (simp add: prev_char_def)
    then show ?thesis by (intro exI [of _ 0]) simp
  next
    case None
    with Cons.prems have "search_local (Some c) cs = Some m" by simp
    from Cons.IH [OF this] obtain i where i: "i \<le> length cs"
      "match_local (prev_char (Some c) cs i) (drop i cs) = Some m"
      "\<forall>j<i. match_local (prev_char (Some c) cs j) (drop j cs) = None"
      by blast
    have "\<forall>j<Suc i. match_local (prev_char p (c # cs) j) (drop j (c # cs)) = None"
    proof (intro allI impI)
      fix j assume "j < Suc i"
      with None i(3) show "match_local (prev_char p (c # cs) j) (drop j (c # cs)) = None"
        by (cases j) (simp_all add: prev_char_Suc, simp add: prev_char_def)
    qed
    with i(1,2) show ?thesis by (intro exI [of _ "Suc i"]) (simp add: prev_char_Suc)
  qed
qed

lemma search_local_none:
  "search_local p s = None \<Longrightarrow> match_local (prev_char p s j) (drop j s) = None"
proof (induction s arbitrary: p j)
  case Nil
  then show ?case by (simp add: match_local_Nil)
next
  case (Cons c cs)
  then have n: "match_local p (c # cs) = None" "search_local (Some c) cs = None"
    by (simp_all split: option.splits)
  show ?case
  proof (cases j)
    case 0
    with n(1) show ?thesis by (simp add: prev_char_def)
  next
    case (Suc j')
    with Cons.IH [OF n(2)] show ?thesis by (simp add: prev_char_Suc)
  qed
qed

lemma digits_are_word_chars: "\<forall>c\<in>set ''0123456789''. is_word_char c"
  by (simp add: is_word_char_def)

lemma digit_is_word_char: "digit_0_9 c \<Longrightarrow> is_word_char c"
  using digits_are_word_chars unfolding digit_0_9_def by blast

lemma word_boundary_before:
  "is_word_char c \<Longrightarrow>
     word_boundary (pre @ c # s) (length pre)
       = (case prev_char None (pre @ c # s) (length pre) of
            None \<Rightarrow> True | Some p \<Rightarrow> \<not> is_word_char p)"
  unfolding word_boundary_def prev_char_def
  by (cases pre rule: rev_cases) (simp_all add: nth_append)

lemma word_boundary_after:
  "is_word_char c \<Longrightarrow> word_boundary (pre @ c # s) (Suc (length pre)) = boundary_after s"
  unfolding word_boundary_def boundary_after_def
  by (cases s) (simp_all add: nth_append)

lemma find_rev_upt_max:
  "find P (rev [a..<b]) = Some k \<Longrightarrow> a \<le> j \<Longrightarrow> j < b \<Longrightarrow> P j \<Longrightarrow> j \<le> k"
proof (induction b)
  case 0
  then show ?case by simp
next
  case (Suc b)
  show ?case
  proof (cases "a \<le> b")
    case False
    with Suc.prems show ?thesis by simp
  next
    case True
    then have r: "rev [a..<Suc b] = b # rev [a..<b]" by simp
    show ?thesis
    proof (cases "P b")
      case True
      with Suc.prems(1) r have "k = b" by simp
      with Suc.prems(3) show ?thesis by simp
    next
      case False
      with Suc.prems(1) r have f: "find P (rev [a..<b]) = Some k" by simp
      from False Suc.prems(3,4) have "j < b" by (cases "j = b") simp_all
      from Suc.IH [OF f Suc.prems(2) this Suc.prems(4)] show ?thesis .
    qed
  qed
qed

lemma local_shapeE:
  assumes "local_shape m"
  obtains ds where "m = CHR ''0'' # CHR ''8'' # ds" "list_all digit_0_9 ds"
    "8 \<le> length ds" "length ds \<le> 11"
proof -
  from assms obtain r where "m = ''08'' @ r"
    unfolding local_shape_def by (auto simp: prefix_def)
  with assms that [of r] show ?thesis
    unfolding local_shape_def by simp
qed

lemma local_after_split:
  assumes "text = pre @ CHR ''0'' # CHR ''8'' # ds @ r" "list_all digit_0_9 ds" "ds \<noteq> []"
  shows "word_boundary text (length pre + (2 + length ds)) = boundary_after r"
proof -
  from assms(3) have ds: "ds = butlast ds @ [last ds]" by simp
  have w: "is_word_char (last ds)"
    using assms(2,3) by (auto simp: list_all_iff intro: digit_is_word_char)
  have "text = (pre @ CHR ''0'' # CHR ''8'' # butlast ds) @ last ds # r"
    unfolding assms(1) by (subst ds) simp
  moreover have "length pre + (2 + length ds) = Suc (length (pre @ CHR ''0'' # CHR ''8'' # butlast ds))"
    using assms(3) by simp
  ultimately show ?thesis
    using word_boundary_after [OF w, of "pre @ CHR ''0'' # CHR ''8'' # butlast ds" r] by simp
qed

lemma zero_is_word_char: "is_word_char CHR ''0''"
  by (simp add: is_word_char_def)

lemma match_local_at:
  assumes i: "i \<le> length text"
    and ml: "match_local (prev_char None text i) (drop i text) = Some m"
  shows "local_at text i m"
proof -
  from ml obtain rest k where s: "drop i text = CHR ''0'' # CHR ''8'' # rest"
    and pc: "case prev_char None text i of None \<Rightarrow> True | Some p \<Rightarrow> \<not> is_word_char p"
    and f: "find (\<lambda>k. boundary_after (drop k rest))
              (rev [8..<Suc (length (takeWhile digit_0_9 (take 11 rest)))]) = Some k"
    and m: "m = CHR ''0'' # CHR ''8'' # take k rest"
    unfolding match_local_def
    by (auto split: list.splits if_splits option.splits simp: Let_def)
  define n where "n = length (takeWhile digit_0_9 (take 11 rest))"
  from f have "k \<in> set (rev [8..<Suc n])" and ba: "boundary_after (drop k rest)"
    unfolding n_def find_Some_iff by (metis nth_mem)+
  then have k: "8 \<le> k" "k \<le> n" by auto
  have n: "n \<le> 11" "n \<le> length (takeWhile digit_0_9 rest)"
    unfolding n_def by (simp_all add: length_takeWhile_take)
  have tk: "take k rest = take k (takeWhile digit_0_9 rest)"
    using k n
    by (metis append_eq_conv_conj le_trans min.absorb2 take_append takeWhile_dropWhile_id
        take_take length_take)
  have digs: "list_all digit_0_9 (take k rest)"
    unfolding tk by (auto simp: list_all_iff dest: in_set_takeD set_takeWhileD)
  have lenk: "length (take k rest) = k"
    unfolding tk using k n by simp
  define pre where "pre = take i text"
  have lpre: "length pre = i" unfolding pre_def using i by simp
  have tx: "text = pre @ CHR ''0'' # CHR ''8'' # take k rest @ drop k rest"
    unfolding pre_def using s append_take_drop_id [of i "text"] by simp
  have shape: "local_shape m"
    unfolding local_shape_def m using digs lenk k n by simp
  have pf: "prefix m (drop i text)"
    unfolding m s by (simp add: take_is_prefix)
  have wb1: "word_boundary text i"
    using word_boundary_before [OF zero_is_word_char, of pre "CHR ''8'' # take k rest @ drop k rest"] pc
    unfolding tx [symmetric] lpre by simp
  have ne: "take k rest \<noteq> []" using lenk k by auto
  have "word_boundary text (length pre + (2 + length (take k rest)))"
    using local_after_split [OF tx digs ne] ba by simp
  then have wb2: "word_boundary text (i + length m)"
    unfolding lpre m by simp
  show ?thesis
    unfolding local_at_def using i pf shape wb1 wb2 by simp
qed

lemma match_local_eq:
  "(case prev of None \<Rightarrow> True | Some p \<Rightarrow> \<not> is_word_char p) \<Longrightarrow>
   find (\<lambda>k. boundary_after (drop k rest))
     (rev [8..<Suc (length (takeWhile digit_0_9 (take 11 rest)))]) = Some k \<Longrightarrow>
   match_local prev (CHR ''0'' # CHR ''8'' # rest) = Some (CHR ''0'' # CHR ''8'' # take k rest)"
  unfolding match_local_def by (simp add: Let_def)

lemma match_local_longest:
  assumes "local_at text i m'"
  shows "\<exists>m. match_local (prev_char None text i) (drop i text) = Some m \<and> length m' \<le> length m"
proof -
  from assms have i: "i \<le> length text" and pf: "prefix m' (drop i text)"
    and sh: "local_shape m'" and wb1: "word_boundary text i"
    and wb2: "word_boundary text (i + length m')"
    unfolding local_at_def by simp_all
  from sh obtain ds where m': "m' = CHR ''0'' # CHR ''8'' # ds" and digs: "list_all digit_0_9 ds"
    and len: "8 \<le> length ds" "length ds \<le> 11"
    by (rule local_shapeE)
  from pf m' obtain r where s: "drop i text = CHR ''0'' # CHR ''8'' # ds @ r"
    by (auto simp: prefix_def)
  define pre where "pre = take i text"
  have lpre: "length pre = i" unfolding pre_def using i by simp
  have tx: "text = pre @ CHR ''0'' # CHR ''8'' # ds @ r"
    unfolding pre_def using s append_take_drop_id [of i "text"] by simp
  have pc: "case prev_char None text i of None \<Rightarrow> True | Some p \<Rightarrow> \<not> is_word_char p"
    using word_boundary_before [OF zero_is_word_char, of pre "CHR ''8'' # ds @ r"] wb1
    unfolding tx [symmetric] lpre by simp
  have ne: "ds \<noteq> []" using len by auto
  have "word_boundary text (length pre + (2 + length ds))"
    using wb2 unfolding lpre m' by simp
  then have ba: "boundary_after (drop (length ds) (ds @ r))"
    using local_after_split [OF tx digs ne] by simp
  define n where "n = length (takeWhile digit_0_9 (take 11 (ds @ r)))"
  have ge: "length ds \<le> n"
    unfolding n_def by (rule takeWhile_take_ge [OF digs len(2)])
  have n: "n \<le> length (ds @ r)"
    unfolding n_def length_takeWhile_take
    by (rule le_trans [OF min.cobounded2 length_takeWhile_le])
  have mem: "length ds \<in> set (rev [8..<Suc n])" using len ge by auto
  obtain k where f: "find (\<lambda>k. boundary_after (drop k (ds @ r))) (rev [8..<Suc n]) = Some k"
  proof (cases "find (\<lambda>k. boundary_after (drop k (ds @ r))) (rev [8..<Suc n])")
    case None
    with mem ba show ?thesis unfolding find_None_iff by blast
  next
    case (Some k)
    with that show ?thesis .
  qed
  from f have "k \<in> set (rev [8..<Suc n])"
    unfolding find_Some_iff by (metis nth_mem)
  then have k: "k \<le> n" by auto
  have kge: "length ds \<le> k"
    using find_rev_upt_max [OF f len(1) _ ba] ge by simp
  have "match_local (prev_char None text i) (drop i text)
          = Some (CHR ''0'' # CHR ''8'' # take k (ds @ r))"
    unfolding s by (rule match_local_eq [OF pc f [unfolded n_def]])
  moreover have "length m' \<le> length (CHR ''0'' # CHR ''8'' # take k (ds @ r))"
    unfolding m' using kge k n by simp
  ultimately show ?thesis by blast
qed


lemma mobile_at_match:
  assumes "mobile_at text j m'"
  shows "\<exists>m. match_mobile (drop j text) = Some m \<and> length m' \<le> length m"
  using assms match_mobile_longest unfolding mobile_at_def by blast

lemma search_mobile_first:
  assumes "search_mobile text = Some m"
  shows "\<exists>i. mobile_at text i m
             \<and> (\<forall>j m'. j < i \<longrightarrow> \<not> mobile_at text j m')
             \<and> (\<forall>m'. mobile_at text i m' \<longrightarrow> length m' \<le> length m)"
proof -
  from search_mobile_leftmost [OF assms] obtain i where i: "i \<le> length text"
    "match_mobile (drop i text) = Some m" "\<forall>j<i. match_mobile (drop j text) = None"
    by blast
  have 1: "mobile_at text i m"
    unfolding mobile_at_def using i(1) match_mobile_shape [OF i(2)] by simp
  have 2: "\<forall>j m'. j < i \<longrightarrow> \<not> mobile_at text j m'"
  proof (intro allI impI notI)
    fix j m' assume "j < i" "mobile_at text j m'"
    with i(3) mobile_at_match [of "text" j m'] show False by auto
  qed
  have 3: "\<forall>m'. mobile_at text i m' \<longrightarrow> length m' \<le> length m"
  proof (intro allI impI)
    fix m' assume "mobile_at text i m'"
    from mobile_at_match [OF this] i(2) show "length m' \<le> length m" by auto
  qed
  from 1 2 3 show ?thesis by blast
qed

lemma search_mobile_absent:
  assumes "search_mobile text = None"
  shows "\<not> mobile_at text j m'"
proof
  assume "mobile_at text j m'"
  from mobile_at_match [OF this] search_mobile_none [OF assms, of j] show False by auto
qed

lemma search_local_first:
  assumes "search_local None text = Some m"
  shows "\<exists>i. local_at text i m
             \<and> (\<forall>j m'. j < i \<longrightarrow> \<not> local_at text j m')
             \<and> (\<forall>m'. local_at text i m' \<longrightarrow> length m' \<le> length m)"
proof -
  from search_local_leftmost [OF assms] obtain i where i: "i \<le> length text"
    "match_local (prev_char None text i) (drop i text) = Some m"
    "\<forall>j<i. match_local (prev_char None text j) (drop j text) = None"
    by blast
  have 1: "local_at text i m"
    by (rule match_local_at [OF i(1,2)])
  have 2: "\<forall>j m'. j < i \<longrightarrow> \<not> local_at text j m'"
  proof (intro allI impI notI)
    fix j m' assume "j < i" "local_at text j m'"
    with i(3) match_local_longest [of "text" j m'] show False by auto
  qed
  have 3: "\<forall>m'. local_at text i m' \<longrightarrow> length m' \<le> length m"
  proof (intro allI impI)
    fix m' assume "local_at text i m'"
    from match_local_longest [OF this] i(2) show "length m' \<le> length m" by auto
  qed
  from 1 2 3 show ?thesis by blast
qed

lemma search_local_absent:
  assumes "search_local None text = None"
  shows "\<not> local_at text j m'"
proof
  assume "local_at text j m'"
  from match_local_longest [OF this] search_local_none [OF assms, of j] show False by auto
qed

text \<open>
  C8 (as the code has it).  A text without any substring that starts with 08, 628 or +628
  followed by at least 8 digits yields \<open>None\<close>.  A returned number is a substring of the
  text that starts with 08, 628 or +628 followed by 8 to 11 digits.  It is the match of
  \<open>(?:\+62|62|0)8[1-9][0-9]{7,10}\<close> at the leftmost position where that pattern matches,
  and the longest match there; if that pattern matches nowhere in the text, it is the
  match of \<open>\b08[0-9]{8,11}\b\<close> at the leftmost position where the second pattern
  matches, and the longest match there.  \<open>None\<close> is returned only if neither pattern
  matches anywhere.
\<close>

theorem extract_phone_sound:
  "(spec_first_phone text = None \<longrightarrow> extract_phone text = None)
   \<and> (extract_phone text = Some m \<longrightarrow> py_in m text \<and> phone_shape 8 11 m)
   \<and> (extract_phone text = Some m \<longrightarrow>
        (\<exists>i. mobile_at text i m
             \<and> (\<forall>j m'. j < i \<longrightarrow> \<not> mobile_at text j m')
             \<and> (\<forall>m'. mobile_at text i m' \<longrightarrow> length m' \<le> length m))
        \<or> ((\<forall>j m'. \<not> mobile_at text j m')
           \<and> (\<exists>i. local_at text i m
                  \<and> (\<forall>j m'. j < i \<longrightarrow> \<not> local_at text j m')
                  \<and> (\<forall>m'. local_at text i m' \<longrightarrow> length m' \<le> length m))))
   \<and> (extract_phone text = None \<longrightarrow>
        (\<forall>j m'. \<not> mobile_at text j m' \<and> \<not> local_at text j m'))"
proof (intro conjI impI)
  assume "spec_first_phone text = None"
  then show "extract_phone text = None"
    by (simp add: extract_phone_def search_mobile_None search_local_None)
next
  assume a: "extract_phone text = Some m"
  then have "search_mobile text = Some m \<or> search_local None text = Some m"
    by (auto simp: extract_phone_def split: option.splits)
  then show "py_in m text" and "phone_shape 8 11 m"
    using search_mobile_Some search_local_Some by blast+
next
  assume a: "extract_phone text = Some m"
  show "(\<exists>i. mobile_at text i m
             \<and> (\<forall>j m'. j < i \<longrightarrow> \<not> mobile_at text j m')
             \<and> (\<forall>m'. mobile_at text i m' \<longrightarrow> length m' \<le> length m))
        \<or> ((\<forall>j m'. \<not> mobile_at text j m')
           \<and> (\<exists>i. local_at text i m
                  \<and> (\<forall>j m'. j < i \<longrightarrow> \<not> local_at text j m')
                  \<and> (\<forall>m'. local_at text i m' \<longrightarrow> length m' \<le> length m)))"
  proof (cases "search_mobile text")
    case (Some m0)
    with a have "search_mobile text = Some m" by (simp add: extract_phone_def)
    from search_mobile_first [OF this] show ?thesis by (rule disjI1)
  next
    case None
    with a have "search_local None text = Some m" by (simp add: extract_phone_def)
    from search_local_first [OF this] search_mobile_absent [OF None]
    show ?thesis by (intro disjI2 conjI allI)
  qed
next
  assume "extract_phone text = None"
  then have n: "search_mobile text = None" "search_local None text = None"
    by (simp_all add: extract_phone_def split: option.splits)
  show "\<forall>j m'. \<not> mobile_at text j m' \<and> \<not> local_at text j m'"
    using search_mobile_absent [OF n(1)] search_local_absent [OF n(2)] by blast
qed

theorem extract_phone_sound_witness:
  "spec_first_phone ''tidak ada nomor'' = None
   \<and> extract_phone ''tidak ada nomor'' = None
   \<and> \<not> mobile_at ''tidak ada nomor'' 0 ''tidak ada nomor''
   \<and> extract_phone ''0801234567 081234567890'' = Some ''081234567890''
   \<and> py_in ''081234567890'' ''0801234567 081234567890''
   \<and> phone_shape 8 11 ''081234567890''
   \<and> mobile_at ''0801234567 081234567890'' 11 ''081234567890''
   \<and> \<not> mobile_at ''0801234567 081234567890'' 0 ''0801234567''
   \<and> extract_phone ''0801234567'' = Some ''0801234567''
   \<and> local_at ''0801234567'' 0 ''0801234567''"
proof -
  have h1: "spec_first_phone ''tidak ada nomor'' = None" by code_simp
  have h2: "extract_phone ''0801234567 081234567890'' = Some ''081234567890''" by code_simp
  have h3: "mobile_at ''0801234567 081234567890'' 11 ''081234567890''" by code_simp
  have h4: "\<not> mobile_at ''0801234567 081234567890'' 0 ''0801234567''" by code_simp
  have h5: "extract_phone ''0801234567'' = Some ''0801234567''" by code_simp
  have h6: "local_at ''0801234567'' 0 ''0801234567''" by code_simp
  from h1 h2 h3 h4 h5 h6 extract_phone_sound [of "''tidak ada nomor''"]
    extract_phone_sound [of "''0801234567 081234567890''" "''081234567890''"]
  show ?thesis by blast
qed

text \<open>
  C8 as the specification words it: whenever the text has a substring of 08 followed by 8
  to 12 digits, the first such substring would be returned.  A run of 08 and twelve digits
  that begins 080 yields \<open>None\<close>, and a number that begins 080 is passed over for a later
  number with a non-zero digit after the 08.
\<close>

theorem extract_phone_first_match_counterexample:
  "spec_first_phone ''08012345678901'' = Some ''08012345678901''
   \<and> extract_phone ''08012345678901'' = None
   \<and> spec_first_phone ''0801234567 081234567890'' = Some ''0801234567''
   \<and> extract_phone ''0801234567 081234567890'' = Some ''081234567890''"
  by code_simp

section \<open>Properties of the LLM fallback\<close>

text \<open>
  C2.  The LLM stage is entered only when the keyword stage gave \<open>general\<close> and the
  fallback is enabled.  Its result replaces the keyword result only when its intent is
  not \<open>general\<close>, so a keyword result other than \<open>general\<close> is never overridden.  When the
  stage fails (no client, an exception in the call, a reply that is not a JSON object) it
  returns the general result with all slots \<open>None\<close>, and the classification is the
  keyword result.  Every exception of the stage is a branch of \<open>llm_try_block\<close> that
  \<open>classify_intent_with_llm\<close> turns into that result.
\<close>

theorem llm_fallback:
  "(snd (classify_query use_llm gemini loads query) \<noteq> [] \<longrightarrow>
      cl_intent (classify_intent_with_keywords (py_lower query)) = JStr ''general'' \<and> use_llm)
   \<and> (fst (classify_query use_llm gemini loads query)
          \<noteq> classify_intent_with_keywords (py_lower query) \<longrightarrow>
        fst (classify_query use_llm gemini loads query) = classify_intent_with_llm gemini loads query
        \<and> cl_intent (classify_intent_with_llm gemini loads query) \<noteq> JStr ''general'')
   \<and> (cl_intent (classify_intent_with_keywords (py_lower query)) \<noteq> JStr ''general'' \<longrightarrow>
        classify_query use_llm gemini loads query
          = (classify_intent_with_keywords (py_lower query), []))
   \<and> (llm_fails gemini loads query \<longrightarrow>
        classify_intent_with_llm gemini loads query
          = \<lparr>cl_intent = JStr ''general'', cl_store_name = JNull, cl_phone_number = JNull,
             cl_period = JNull\<rparr>
        \<and> fst (classify_query use_llm gemini loads query)
          = classify_intent_with_keywords (py_lower query))"
proof (intro conjI impI)
  assume f: "llm_fails gemini loads query"
  then show g: "classify_intent_with_llm gemini loads query
          = \<lparr>cl_intent = JStr ''general'', cl_store_name = JNull, cl_phone_number = JNull,
             cl_period = JNull\<rparr>"
    by (auto simp: llm_fails_def classify_intent_with_llm_def llm_try_block_def
        general_result_def json_get_def split: option.splits llm_outcome.splits json.splits)
  show "fst (classify_query use_llm gemini loads query)
          = classify_intent_with_keywords (py_lower query)"
    by (simp add: classify_query_def Let_def g)
qed (auto simp: classify_query_def Let_def split: if_splits)

theorem llm_fallback_witness:
  "snd (classify_query True None (\<lambda>t. None) ''halo'') \<noteq> []
   \<and> cl_intent (classify_intent_with_keywords (py_lower ''halo'')) = JStr ''general''
   \<and> fst (classify_query True (Some (\<lambda>p. LlmText ''{}''))
              (\<lambda>t. Some (JObj [(''intent'', JStr ''peak_hours'')])) ''halo'')
       \<noteq> classify_intent_with_keywords (py_lower ''halo'')
   \<and> cl_intent (classify_intent_with_llm (Some (\<lambda>p. LlmText ''{}''))
              (\<lambda>t. Some (JObj [(''intent'', JStr ''peak_hours'')])) ''halo'')
       \<noteq> JStr ''general''
   \<and> cl_intent (classify_intent_with_keywords (py_lower ''Bandingkan bulan ini''))
       \<noteq> JStr ''general''
   \<and> classify_query True (Some (\<lambda>p. LlmText ''{}''))
         (\<lambda>t. Some (JObj [(''intent'', JStr ''peak_hours'')])) ''Bandingkan bulan ini''
       = (classify_intent_with_keywords (py_lower ''Bandingkan bulan ini''), [])
   \<and> llm_fails (Some (\<lambda>p. LlmRaises ''timeout'')) (\<lambda>t. None) ''halo 081234567890''
   \<and> classify_intent_with_llm (Some (\<lambda>p. LlmRaises ''timeout'')) (\<lambda>t. None)
         ''halo 081234567890''
       = \<lparr>cl_intent = JStr ''general'', cl_store_name = JNull, cl_phone_number = JNull,
          cl_period = JNull\<rparr>
   \<and> fst (classify_query True (Some (\<lambda>p. LlmRaises ''timeout'')) (\<lambda>t. None)
         ''halo 081234567890'')
       = classify_intent_with_keywords (py_lower ''halo 081234567890'')"
proof -
  have h1: "snd (classify_query True None (\<lambda>t. None) ''halo'') \<noteq> []"
    by code_simp
  have h2: "fst (classify_query True (Some (\<lambda>p. LlmText ''{}''))
              (\<lambda>t. Some (JObj [(''intent'', JStr ''peak_hours'')])) ''halo'')
            \<noteq> classify_intent_with_keywords (py_lower ''halo'')"
    by code_simp
  have h3: "cl_intent (classify_intent_with_keywords (py_lower ''Bandingkan bulan ini''))
            \<noteq> JStr ''general''"
    by code_simp
  have h4: "llm_fails (Some (\<lambda>p. LlmRaises ''timeout'')) (\<lambda>t. None) ''halo 081234567890''"
    by (simp add: llm_fails_def)
  from h1 h2 h3 h4
    llm_fallback [of True None "\<lambda>t. None" "''halo''"]
    llm_fallback [of True "Some (\<lambda>p. LlmText ''{}'')"
      "\<lambda>t. Some (JObj [(''intent'', JStr ''peak_hours'')])" "''halo''"]
    llm_fallback [of True "Some (\<lambda>p. LlmText ''{}'')"
      "\<lambda>t. Some (JObj [(''intent'', JStr ''peak_hours'')])" "''Bandingkan bulan ini''"]
    llm_fallback [of True "Some (\<lambda>p. LlmRaises ''timeout'')" "\<lambda>t. None"
      "''halo 081234567890''"]
  show ?thesis by blast
qed

section \<open>Properties of the handlers\<close>

lemma qtracksI:
  assumes "\<And>s. prefix (calls s) (calls (snd (m s)))"
    and "\<And>s i e. raised_at w s (snd (m s)) i e \<Longrightarrow> fst (m s) = Inl e"
  shows "qtracks w m"
  using assms unfolding qtracks_def by blast

lemma qtracks_return: "qtracks w (m_return x)"
  by (rule qtracksI) (auto simp: m_return_def raised_at_def)

lemma qtracks_lift: "qtracks w (m_lift r)"
  by (rule qtracksI) (auto simp: m_lift_def raised_at_def)

lemma qtracks_call_query: "qtracks w (call_query w c)"
proof (rule qtracksI)
  fix s show "prefix (calls s) (calls (snd (call_query w c s)))"
    by (simp add: call_query_def)
next
  fix s i e assume "raised_at w s (snd (call_query w c s)) i e"
  then have "i = length (calls s)" "w_query w i ((calls s @ [c]) ! i) = Inl e"
    by (simp_all add: raised_at_def call_query_def)
  then show "fst (call_query w c s) = Inl e"
    by (simp add: call_query_def)
qed

lemma qtracks_call_list_stores: "qtracks w (call_list_stores w)"
proof (rule qtracksI)
  fix s show "prefix (calls s) (calls (snd (call_list_stores w s)))"
    by (simp add: call_list_stores_def)
next
  fix s i e assume "raised_at w s (snd (call_list_stores w s)) i e"
  then have "i = length (calls s)" "is_report_query ((calls s @ [ListStores]) ! i)"
    by (simp_all add: raised_at_def call_list_stores_def)
  then have False by (simp add: is_report_query_def)
  then show "fst (call_list_stores w s) = Inl e" ..
qed

lemma calls_load_store_cache:
  "calls (load_store_cache w s) = calls s \<or> calls (load_store_cache w s) = calls s @ [ListStores]"
  by (auto simp: load_store_cache_def call_list_stores_def split: sum.splits prod.splits)

lemma tools_load_store_cache: "tools_loaded (load_store_cache w s) = tools_loaded s"
  by (auto simp: load_store_cache_def call_list_stores_def split: sum.splits prod.splits)

lemma no_raise_load_store_cache: "\<not> raised_at w s (load_store_cache w s) i e"
proof
  assume r: "raised_at w s (load_store_cache w s) i e"
  from calls_load_store_cache [of w s] show False
  proof
    assume "calls (load_store_cache w s) = calls s"
    with r show False by (auto simp: raised_at_def)
  next
    assume c: "calls (load_store_cache w s) = calls s @ [ListStores]"
    with r have "i = length (calls s)" by (simp add: raised_at_def)
    with r c show False by (simp add: raised_at_def is_report_query_def)
  qed
qed

lemma prefix_load_store_cache: "prefix (calls s) (calls (load_store_cache w s))"
  using calls_load_store_cache [of w s] by auto

lemma qtracks_get_store_name: "qtracks w (get_store_name_by_id w sid)"
  by (rule qtracksI)
    (simp_all add: get_store_name_by_id_def Let_def prefix_load_store_cache
      no_raise_load_store_cache)

lemma qtracks_update_store_cache: "qtracks w (update_store_cache stores)"
  by (rule qtracksI) (auto simp: update_store_cache_def raised_at_def)

lemma raised_at_split:
  assumes "raised_at w s s2 i e" "prefix (calls s) (calls s1)" "prefix (calls s1) (calls s2)"
  shows "raised_at w s s1 i e \<or> raised_at w s1 s2 i e"
proof (cases "i < length (calls s1)")
  case True
  from assms(3) obtain zs where "calls s2 = calls s1 @ zs" by (auto simp: prefix_def)
  with True have "calls s2 ! i = calls s1 ! i" by (simp add: nth_append)
  with assms(1) True show ?thesis by (simp add: raised_at_def)
next
  case False
  with assms(1) show ?thesis by (simp add: raised_at_def)
qed

lemma qtracks_bind:
  assumes m: "qtracks w m" and f: "\<And>x. qtracks w (f x)"
  shows "qtracks w (m_bind m f)"
proof (rule qtracksI)
  fix s
  obtain r1 s1 where ms: "m s = (r1, s1)" by (cases "m s")
  from m ms have p1: "prefix (calls s) (calls s1)"
    unfolding qtracks_def by (metis snd_conv)
  show "prefix (calls s) (calls (snd (m_bind m f s)))"
  proof (cases r1)
    case (Inl e)
    with ms p1 show ?thesis by (simp add: m_bind_def)
  next
    case (Inr x)
    from f [of x] have "prefix (calls s1) (calls (snd (f x s1)))"
      unfolding qtracks_def by blast
    with p1 have "prefix (calls s) (calls (snd (f x s1)))" by (rule prefix_order.trans)
    with ms Inr show ?thesis by (simp add: m_bind_def)
  qed
next
  fix s i e
  assume r: "raised_at w s (snd (m_bind m f s)) i e"
  obtain r1 s1 where ms: "m s = (r1, s1)" by (cases "m s")
  from m ms have p1: "prefix (calls s) (calls s1)"
    and t1: "\<And>i e. raised_at w s s1 i e \<Longrightarrow> r1 = Inl e"
    unfolding qtracks_def by (metis snd_conv, metis fst_conv snd_conv)
  show "fst (m_bind m f s) = Inl e"
  proof (cases r1)
    case (Inl e1)
    with ms r have "raised_at w s s1 i e" by (simp add: m_bind_def)
    from t1 [OF this] ms Inl show ?thesis by (simp add: m_bind_def)
  next
    case (Inr x)
    from f [of x] have p2: "prefix (calls s1) (calls (snd (f x s1)))"
      and t2: "\<And>i e. raised_at w s1 (snd (f x s1)) i e \<Longrightarrow> fst (f x s1) = Inl e"
      unfolding qtracks_def by blast+
    from r ms Inr have "raised_at w s (snd (f x s1)) i e" by (simp add: m_bind_def)
    from raised_at_split [OF this p1 p2] show ?thesis
    proof
      assume "raised_at w s s1 i e"
      from t1 [OF this] Inr show ?thesis by simp
    next
      assume "raised_at w s1 (snd (f x s1)) i e"
      from t2 [OF this] ms Inr show ?thesis by (simp add: m_bind_def)
    qed
  qed
qed

lemma qtracks_case_option:
  assumes "qtracks w n" "\<And>x. qtracks w (f x)"
  shows "qtracks w (case opt of None \<Rightarrow> n | Some x \<Rightarrow> f x)"
  using assms by (cases opt) simp_all

lemma qtracks_if:
  assumes "qtracks w a" "qtracks w b"
  shows "qtracks w (if c then a else b)"
  using assms by simp

lemmas qtracks_intros = qtracks_bind qtracks_return qtracks_lift qtracks_call_query
  qtracks_call_list_stores qtracks_get_store_name qtracks_update_store_cache
  qtracks_case_option qtracks_if

lemma qtracks_daily: "qtracks w (daily_block g w d sid)"
  unfolding daily_block_def by (intro qtracks_intros)
lemma qtracks_weekly: "qtracks w (weekly_block g w sid)"
  unfolding weekly_block_def by (intro qtracks_intros)
lemma qtracks_monthly: "qtracks w (monthly_block g w sid)"
  unfolding monthly_block_def by (intro qtracks_intros)
lemma qtracks_compare: "qtracks w (compare_block g w p sid)"
  unfolding compare_block_def by (intro qtracks_intros)
lemma qtracks_top_services: "qtracks w (top_services_block g w days limit sid)"
  unfolding top_services_block_def by (intro qtracks_intros)
lemma qtracks_peak_hours: "qtracks w (peak_hours_block g w days sid)"
  unfolding peak_hours_block_def by (intro qtracks_intros)
lemma qtracks_churned: "qtracks w (churned_block g w days)"
  unfolding churned_block_def by (intro qtracks_intros)
lemma qtracks_inactive: "qtracks w (inactive_block g w days)"
  unfolding inactive_block_def by (intro qtracks_intros)
lemma qtracks_customer_points: "qtracks w (customer_points_block g w phone)"
  unfolding customer_points_block_def by (intro qtracks_intros)
lemma qtracks_points_summary: "qtracks w (points_summary_block g w sid)"
  unfolding points_summary_block_def by (intro qtracks_intros)
lemma qtracks_list_stores: "qtracks w (list_stores_block g w)"
  unfolding list_stores_block_def by (intro qtracks_intros)
lemma qtracks_complex: "qtracks w (complex_block g w client query)"
  unfolding complex_block_def m_generate_def by (intro qtracks_intros)

lemma try_except_catches:
  fixes msg :: string
  assumes b: "qtracks w body"
  defines "m \<equiv> try_except body (\<lambda>e. m_return (failure_response msg e))"
  shows "\<exists>r. fst (m s) = Inr r"
    and "raised_at w s (snd (m s)) i e \<Longrightarrow> fst (m s) = Inr (failure_response msg e)"
proof -
  obtain r1 s1 where bs: "body s = (r1, s1)" by (cases "body s")
  from b bs have t: "\<And>i e. raised_at w s s1 i e \<Longrightarrow> r1 = Inl e"
    unfolding qtracks_def by (metis fst_conv snd_conv)
  show "\<exists>r. fst (m s) = Inr r"
    using bs by (cases r1) (simp_all add: m_def try_except_def m_return_def)
  assume "raised_at w s (snd (m s)) i e"
  then have "raised_at w s s1 i e"
    using bs by (cases r1) (simp_all add: m_def try_except_def m_return_def)
  from t [OF this] bs show "fst (m s) = Inr (failure_response msg e)"
    by (simp add: m_def try_except_def m_return_def)
qed

lemma bind_ensure_loaded:
  "tools_loaded s \<Longrightarrow> m_bind (ensure_tools_loaded w) f s = f () s"
  by (simp add: m_bind_def ensure_tools_loaded_def)

lemma m_ask_result:
  "m_ask g w rt s = (Inr (fst (ask_for_store_context g w rt s)), load_store_cache w s)"
  by (simp add: m_ask_def ask_for_store_context_def Let_def)

lemma ask_points_store_state: "snd (ask_points_store g w s) = load_store_cache w s"
  by (simp add: ask_points_store_def Let_def)

lemma ask_points_store_result: "\<exists>r. fst (ask_points_store g w s) = Inr r"
  by (simp add: ask_points_store_def Let_def)

lemma get_store_by_name_state: "snd (get_store_by_name w name s) = load_store_cache w s"
  by (simp add: get_store_by_name_def Let_def split: option.splits prod.splits)

lemma get_store_by_name_result: "\<exists>r. fst (get_store_by_name w name s) = Inr r"
  by (simp add: get_store_by_name_def Let_def split: option.splits prod.splits)

lemma handler_catches:
  assumes "tools_loaded s"
  shows "\<exists>r. fst (run_handler g w gem h s) = Inr r"
    and "raised_at w s (snd (run_handler g w gem h s)) i e \<Longrightarrow>
         fst (run_handler g w gem h s) = Inr (failure_response (failure_message h) e)"
proof -
  have "(\<exists>r. fst (run_handler g w gem h s) = Inr r)
        \<and> (raised_at w s (snd (run_handler g w gem h s)) i e \<longrightarrow>
           fst (run_handler g w gem h s) = Inr (failure_response (failure_message h) e))"
  proof (cases h)
    case (HDaily date sid)
    show ?thesis
    proof (cases "effective_id sid s = []")
      case True
      with HDaily assms show ?thesis
        by (simp add: get_daily_report_def bind_ensure_loaded m_ask_result
            no_raise_load_store_cache)
    next
      case False
      with HDaily assms show ?thesis
        by (simp add: get_daily_report_def bind_ensure_loaded)
          (use try_except_catches [OF qtracks_daily] in blast)
    qed
  next
    case (HWeekly sid)
    show ?thesis
    proof (cases "effective_id sid s = []")
      case True
      with HWeekly assms show ?thesis
        by (simp add: get_weekly_report_def bind_ensure_loaded m_ask_result
            no_raise_load_store_cache)
    next
      case False
      with HWeekly assms show ?thesis
        by (simp add: get_weekly_report_def bind_ensure_loaded)
          (use try_except_catches [OF qtracks_weekly] in blast)
    qed
  next
    case (HMonthly sid)
    show ?thesis
    proof (cases "effective_id sid s = []")
      case True
      with HMonthly assms show ?thesis
        by (simp add: get_monthly_report_def bind_ensure_loaded m_ask_result
            no_raise_load_store_cache)
    next
      case False
      with HMonthly assms show ?thesis
        by (simp add: get_monthly_report_def bind_ensure_loaded)
          (use try_except_catches [OF qtracks_monthly] in blast)
    qed
  next
    case (HCompare p sid)
    show ?thesis
    proof (cases "effective_id sid s = []")
      case True
      with HCompare assms show ?thesis
        by (simp add: compare_periods_def bind_ensure_loaded m_ask_result
            no_raise_load_store_cache)
    next
      case False
      with HCompare assms show ?thesis
        by (simp add: compare_periods_def bind_ensure_loaded)
          (use try_except_catches [OF qtracks_compare] in blast)
    qed
  next
    case (HTopServices days limit sid)
    with assms show ?thesis
      by (simp add: get_top_services_def bind_ensure_loaded)
        (use try_except_catches [OF qtracks_top_services] in blast)
  next
    case (HPeakHours days sid)
    with assms show ?thesis
      by (simp add: get_peak_hours_def bind_ensure_loaded)
        (use try_except_catches [OF qtracks_peak_hours] in blast)
  next
    case (HChurned days)
    with assms show ?thesis
      by (simp add: get_churned_customers_def bind_ensure_loaded)
        (use try_except_catches [OF qtracks_churned] in blast)
  next
    case (HInactive days)
    with assms show ?thesis
      by (simp add: get_inactive_customers_def bind_ensure_loaded)
        (use try_except_catches [OF qtracks_inactive] in blast)
  next
    case (HCustomerPoints phone)
    with assms show ?thesis
      by (simp add: get_customer_points_def bind_ensure_loaded)
        (use try_except_catches [OF qtracks_customer_points] in blast)
  next
    case (HPointsSummary sid)
    show ?thesis
    proof (cases "points_effective_id sid s = []")
      case True
      with HPointsSummary assms show ?thesis
        by (simp add: get_points_summary_def bind_ensure_loaded ask_points_store_state
            ask_points_store_result no_raise_load_store_cache)
    next
      case False
      with HPointsSummary assms show ?thesis
        by (simp add: get_points_summary_def bind_ensure_loaded)
          (use try_except_catches [OF qtracks_points_summary] in blast)
    qed
  next
    case HListStores
    with assms show ?thesis
      by (simp add: list_stores_def bind_ensure_loaded)
        (use try_except_catches [OF qtracks_list_stores] in blast)
  next
    case (HStoreByName name)
    then show ?thesis
      by (simp add: get_store_by_name_state get_store_by_name_result
          no_raise_load_store_cache)
  next
    case (HComplex query)
    show ?thesis
    proof (cases gem)
      case None
      with HComplex show ?thesis
        by (auto simp: handle_complex_query_def m_return_def raised_at_def)
    next
      case (Some client)
      with HComplex show ?thesis
        by (simp add: handle_complex_query_def)
          (use try_except_catches [OF qtracks_complex] in blast)
    qed
  qed
  then show "\<exists>r. fst (run_handler g w gem h s) = Inr r"
    and "raised_at w s (snd (run_handler g w gem h s)) i e \<Longrightarrow>
         fst (run_handler g w gem h s) = Inr (failure_response (failure_message h) e)"
    by simp_all
qed

lemma list_stores_fetch_raises:
  assumes "tools_loaded s" "w_list_stores w (length (calls s)) = Inl e"
  shows "fst (list_stores g w s)
         = Inr (failure_response ''Gagal mengambil daftar toko dari database.'' e)"
  using assms
  by (simp add: list_stores_def bind_ensure_loaded)
    (simp add: try_except_def list_stores_block_def m_bind_def call_list_stores_def
      m_return_def)

lemma py_in_iff: "py_in sub s \<longleftrightarrow> (\<exists>a b. s = a @ sub @ b)"
proof (induction s)
  case Nil
  then show ?case by auto
next
  case (Cons c cs)
  show ?case
  proof
    assume "py_in sub (c # cs)"
    then consider "prefix sub (c # cs)" | "py_in sub cs" by auto
    then show "\<exists>a b. c # cs = a @ sub @ b"
    proof cases
      case 1
      then obtain b where "c # cs = sub @ b" by (auto simp: prefix_def)
      then have "c # cs = [] @ sub @ b" by simp
      then show ?thesis by blast
    next
      case 2
      with Cons.IH obtain a b where "cs = a @ sub @ b" by blast
      then have "c # cs = (c # a) @ sub @ b" by simp
      then show ?thesis by blast
    qed
  next
    assume "\<exists>a b. c # cs = a @ sub @ b"
    then obtain a b where ab: "c # cs = a @ sub @ b" by blast
    show "py_in sub (c # cs)"
    proof (cases a)
      case Nil
      with ab have "prefix sub (c # cs)" by (simp add: prefix_def)
      then show ?thesis by simp
    next
      case (Cons x xs)
      with ab have "cs = xs @ sub @ b" by simp
      with Cons.IH have "py_in sub cs" by blast
      then show ?thesis by simp
    qed
  qed
qed

lemma py_in_middle: "py_in sub (a @ sub @ b)"
  unfolding py_in_iff by blast

lemma bind_ensure_ok:
  "fst (ensure_tools_loaded w s) = Inr () \<Longrightarrow>
     m_bind (ensure_tools_loaded w) f s = f () (snd (ensure_tools_loaded w s))"
  by (cases "ensure_tools_loaded w s") (auto simp: m_bind_def)

lemma store_id_ensure: "store_id (snd (ensure_tools_loaded w s)) = store_id s"
  by (simp add: ensure_tools_loaded_def split: option.splits)

lemma effective_id_ensure:
  "effective_id sid (snd (ensure_tools_loaded w s)) = effective_id sid s"
  by (simp add: effective_id_def store_id_ensure split: option.splits)

lemma points_effective_id_ensure:
  "points_effective_id sid (snd (ensure_tools_loaded w s)) = points_effective_id sid s"
  by (simp add: points_effective_id_def store_id_ensure split: option.splits)

lemma calls_ensure:
  "calls (snd (ensure_tools_loaded w s)) = calls s
   \<or> calls (snd (ensure_tools_loaded w s)) = calls s @ [LoadAnalyticsTools]"
  by (simp add: ensure_tools_loaded_def split: option.splits)

lemma calls_ensure_load:
  "\<exists>cs. calls (load_store_cache w (snd (ensure_tools_loaded w s))) = calls s @ cs
        \<and> list_all (\<lambda>c. c = LoadAnalyticsTools \<or> c = ListStores) cs"
  using calls_ensure [of w s] calls_load_store_cache [of w "snd (ensure_tools_loaded w s)"]
  by auto

lemma bind_ensure_raises:
  "fst (ensure_tools_loaded w s) = Inl e \<Longrightarrow>
     m_bind (ensure_tools_loaded w) f s = (Inl e, snd (ensure_tools_loaded w s))"
  by (cases "ensure_tools_loaded w s") (auto simp: m_bind_def)

lemma ensure_raises_calls:
  "fst (ensure_tools_loaded w s) = Inl e \<Longrightarrow>
     calls (snd (ensure_tools_loaded w s)) = calls s @ [LoadAnalyticsTools]"
  by (simp add: ensure_tools_loaded_def split: if_splits option.splits)

lemma run_handler_tools_raise:
  assumes "fst (ensure_tools_loaded w s) = Inl e" "uses_tools h"
  shows "run_handler g w gem h s = (Inl e, snd (ensure_tools_loaded w s))"
  using assms(2)
  by (cases h)
    (simp_all add: bind_ensure_raises [OF assms(1)] get_daily_report_def
      get_weekly_report_def get_monthly_report_def compare_periods_def get_top_services_def
      get_peak_hours_def get_churned_customers_def get_inactive_customers_def
      get_customer_points_def get_points_summary_def list_stores_def)

lemma needs_store_uses_tools: "needs_store h s \<Longrightarrow> uses_tools h"
  by (cases h) simp_all


lemma phrase_split:
  "''Mohon sebutkan nama toko untuk melihat ''
   = ''Mohon sebutkan nama toko'' @ '' untuk melihat ''"
  by simp

lemma ask_text:
  "m_ask g w rt s =
      (Inr \<lparr>success = True,
            response = (sym_chart @ '' *'' @ title g rt @ ''*'' @ nl @ nl
                @ ''Mohon sebutkan nama toko'' @ '' untuk melihat '' @ rt @ ''.'' @ nl @ nl
                @ ''Contoh: `'' @ rt @ '' toko [nama toko]`'' @ nl @ nl
                @ sym_store @ '' *Toko tersedia:*'')
              @ concat (map (\<lambda>name. nl @ sym_bullet @ '' '' @ title g name)
                          (take 5 (map fst (store_cache (load_store_cache w s)))))
              @ (if length (store_cache (load_store_cache w s)) > 5
                 then nl @ sym_bullet @ '' ... dan ''
                      @ dec_nat (length (store_cache (load_store_cache w s)) - 5)
                      @ '' toko lainnya''
                 else [])
              @ (nl @ nl @ sym_bulb @ '' Ketik `daftar toko` untuk melihat semua toko.''),
            data = Some RequiresStore, error = None, ai_generated = False\<rparr>,
       load_store_cache w s)"
  unfolding m_ask_def ask_for_store_context_def Let_def store_lines_def
  by (simp only: phrase_split append_assoc prod.case)

lemma points_text:
  "ask_points_store g w s =
      (Inr \<lparr>success = True,
            response = (sym_chart @ '' *Ringkasan Poin*'' @ nl @ nl
                @ ''Mohon sebutkan nama toko'' @ '' untuk melihat ringkasan poin.''
                @ nl @ nl
                @ ''Contoh: `ringkasan poin toko [nama toko]`'' @ nl @ nl
                @ sym_store @ '' *Toko tersedia:*'')
              @ concat (map (\<lambda>name. nl @ sym_bullet @ '' '' @ title g name)
                          (take 5 (map fst (store_cache (load_store_cache w s)))))
              @ (if length (store_cache (load_store_cache w s)) > 5
                 then nl @ sym_bullet @ '' ... dan ''
                      @ dec_nat (length (store_cache (load_store_cache w s)) - 5)
                      @ '' toko lainnya''
                 else [])
              @ [],
            data = Some RequiresStore, error = None, ai_generated = False\<rparr>,
       load_store_cache w s)"
proof -
  have p: "''Mohon sebutkan nama toko untuk melihat ringkasan poin.''
           = ''Mohon sebutkan nama toko'' @ '' untuk melihat ringkasan poin.''"
    by simp
  show ?thesis
    unfolding ask_points_store_def Let_def store_lines_def ok_response_def
    by (simp only: p append_assoc append_Nil2)
qed

lemma gated_run:
  assumes "fst (ensure_tools_loaded w s) = Inr ()" "needs_store h s"
  shows "run_handler g w gem h s =
     (case h of
        HDaily date sid \<Rightarrow> m_ask g w ''laporan harian''
      | HWeekly sid \<Rightarrow> m_ask g w ''laporan mingguan''
      | HMonthly sid \<Rightarrow> m_ask g w ''laporan bulanan''
      | HCompare p sid \<Rightarrow> m_ask g w ''perbandingan pendapatan''
      | _ \<Rightarrow> ask_points_store g w) (snd (ensure_tools_loaded w s))"
  using assms
  by (cases h)
    (simp_all add: get_daily_report_def get_weekly_report_def get_monthly_report_def
      compare_periods_def get_points_summary_def bind_ensure_ok effective_id_ensure
      points_effective_id_ensure)

text \<open>
  C4 (as the code has it).  Every handler that needs a store (daily, weekly and monthly
  report, period comparison, points summary) calls \<open>_ensure_tools_loaded\<close> before it looks
  at the store id.  When that call returns (the tools were loaded, or load now) and the
  effective store id is empty, the handler returns a response with \<open>success = True\<close> and
  no \<open>error\<close>; its text asks for the name of a store and, between two fixed parts, has one
  line for each of the first five names of the store cache and, if there are more, one
  line that counts the others; beside the loading of the tools, the only call made is the
  fetch of the store list that fills an empty cache, never a report query.  When loading
  the tools raises, the exception leaves the handler and nothing else is called.
\<close>

theorem store_context_required:
  fixes g :: "'r given"
  shows "\<exists>pre post. py_in ''Mohon sebutkan nama toko'' pre \<and>
     (\<forall>w gem s. fst (ensure_tools_loaded w s) = Inr () \<and> needs_store h s \<longrightarrow>
        (let s' = load_store_cache w (snd (ensure_tools_loaded w s))
         in run_handler g w gem h s =
            (Inr \<lparr>success = True,
                  response = pre
                    @ concat (map (\<lambda>name. nl @ sym_bullet @ '' '' @ title g name)
                                (take 5 (map fst (store_cache s'))))
                    @ (if length (store_cache s') > 5
                       then nl @ sym_bullet @ '' ... dan ''
                            @ dec_nat (length (store_cache s') - 5) @ '' toko lainnya''
                       else [])
                    @ post,
                  data = Some RequiresStore, error = None, ai_generated = False\<rparr>, s')
            \<and> (\<exists>cs. calls s' = calls s @ cs
                    \<and> list_all (\<lambda>c. c = LoadAnalyticsTools \<or> c = ListStores) cs)))
     \<and> (\<forall>w gem s e. fst (ensure_tools_loaded w s) = Inl e \<and> needs_store h s \<longrightarrow>
          fst (run_handler g w gem h s) = Inl e
          \<and> calls (snd (run_handler g w gem h s)) = calls s @ [LoadAnalyticsTools])"
  (is "\<exists>pre post. ?P pre \<and> ?M pre post \<and> ?R")
proof -
  let ?head = "\<lambda>rt. sym_chart @ '' *'' @ title g rt @ ''*'' @ nl @ nl
      @ ''Mohon sebutkan nama toko'' @ '' untuk melihat '' @ rt @ ''.'' @ nl @ nl
      @ ''Contoh: `'' @ rt @ '' toko [nama toko]`'' @ nl @ nl
      @ sym_store @ '' *Toko tersedia:*''"
  let ?tail = "nl @ nl @ sym_bulb @ '' Ketik `daftar toko` untuk melihat semua toko.''"
  let ?phead = "sym_chart @ '' *Ringkasan Poin*'' @ nl @ nl
      @ ''Mohon sebutkan nama toko'' @ '' untuk melihat ringkasan poin.'' @ nl @ nl
      @ ''Contoh: `ringkasan poin toko [nama toko]`'' @ nl @ nl
      @ sym_store @ '' *Toko tersedia:*''"
  have in_head: "?P (?head rt)" for rt
    using py_in_middle [of "''Mohon sebutkan nama toko''"
        "sym_chart @ '' *'' @ title g rt @ ''*'' @ nl @ nl"]
    by (simp only: append_assoc)
  have in_phead: "?P ?phead"
    using py_in_middle [of "''Mohon sebutkan nama toko''"
        "sym_chart @ '' *Ringkasan Poin*'' @ nl @ nl"]
    by (simp only: append_assoc)
  have R: ?R
  proof (intro allI impI)
    fix w :: "'r world" and gem s e
    assume a: "fst (ensure_tools_loaded w s) = Inl e \<and> needs_store h s"
    then have "run_handler g w gem h s = (Inl e, snd (ensure_tools_loaded w s))"
      by (intro run_handler_tools_raise needs_store_uses_tools [of h s]) simp_all
    with a ensure_raises_calls [of w s e]
    show "fst (run_handler g w gem h s) = Inl e
          \<and> calls (snd (run_handler g w gem h s)) = calls s @ [LoadAnalyticsTools]"
      by simp
  qed
  have M_ask: "?M (?head rt) ?tail"
    if run: "\<And>(w :: 'r world) gem s.
               fst (ensure_tools_loaded w s) = Inr () \<and> needs_store h s \<Longrightarrow>
               run_handler g w gem h s = m_ask g w rt (snd (ensure_tools_loaded w s))" for rt
  proof (intro allI impI)
    fix w :: "'r world" and gem s
    assume a: "fst (ensure_tools_loaded w s) = Inr () \<and> needs_store h s"
    show "let s' = load_store_cache w (snd (ensure_tools_loaded w s))
          in run_handler g w gem h s =
            (Inr \<lparr>success = True,
                  response = ?head rt
                    @ concat (map (\<lambda>name. nl @ sym_bullet @ '' '' @ title g name)
                                (take 5 (map fst (store_cache s'))))
                    @ (if length (store_cache s') > 5
                       then nl @ sym_bullet @ '' ... dan ''
                            @ dec_nat (length (store_cache s') - 5) @ '' toko lainnya''
                       else [])
                    @ ?tail,
                  data = Some RequiresStore, error = None, ai_generated = False\<rparr>, s')
            \<and> (\<exists>cs. calls s' = calls s @ cs
                    \<and> list_all (\<lambda>c. c = LoadAnalyticsTools \<or> c = ListStores) cs)"
      unfolding Let_def run [OF a] ask_text
      by (intro conjI refl calls_ensure_load)
  qed
  have M_points: "?M ?phead []"
    if run: "\<And>(w :: 'r world) gem s.
               fst (ensure_tools_loaded w s) = Inr () \<and> needs_store h s \<Longrightarrow>
               run_handler g w gem h s = ask_points_store g w (snd (ensure_tools_loaded w s))"
  proof (intro allI impI)
    fix w :: "'r world" and gem s
    assume a: "fst (ensure_tools_loaded w s) = Inr () \<and> needs_store h s"
    show "let s' = load_store_cache w (snd (ensure_tools_loaded w s))
          in run_handler g w gem h s =
            (Inr \<lparr>success = True,
                  response = ?phead
                    @ concat (map (\<lambda>name. nl @ sym_bullet @ '' '' @ title g name)
                                (take 5 (map fst (store_cache s'))))
                    @ (if length (store_cache s') > 5
                       then nl @ sym_bullet @ '' ... dan ''
                            @ dec_nat (length (store_cache s') - 5) @ '' toko lainnya''
                       else [])
                    @ [],
                  data = Some RequiresStore, error = None, ai_generated = False\<rparr>, s')
            \<and> (\<exists>cs. calls s' = calls s @ cs
                    \<and> list_all (\<lambda>c. c = LoadAnalyticsTools \<or> c = ListStores) cs)"
      unfolding Let_def run [OF a] points_text
      by (intro conjI refl calls_ensure_load)
  qed
  show ?thesis
  proof (cases h)
    case (HDaily date sid)
    have "?M (?head ''laporan harian'') ?tail"
      by (rule M_ask) (use gated_run [where h = h and g = g] in \<open>simp add: HDaily\<close>)
    with in_head R show ?thesis by blast
  next
    case (HWeekly sid)
    have "?M (?head ''laporan mingguan'') ?tail"
      by (rule M_ask) (use gated_run [where h = h and g = g] in \<open>simp add: HWeekly\<close>)
    with in_head R show ?thesis by blast
  next
    case (HMonthly sid)
    have "?M (?head ''laporan bulanan'') ?tail"
      by (rule M_ask) (use gated_run [where h = h and g = g] in \<open>simp add: HMonthly\<close>)
    with in_head R show ?thesis by blast
  next
    case (HCompare p sid)
    have "?M (?head ''perbandingan pendapatan'') ?tail"
      by (rule M_ask) (use gated_run [where h = h and g = g] in \<open>simp add: HCompare\<close>)
    with in_head R show ?thesis by blast
  next
    case (HPointsSummary sid)
    have "?M ?phead []"
      by (rule M_points) (use gated_run [where h = h and g = g] in \<open>simp add: HPointsSummary\<close>)
    with in_phead R show ?thesis by blast
  qed (use in_head [of "[]"] R in \<open>auto intro!: exI [of _ "?head []"]\<close>)
qed

theorem store_context_required_witness:
  "fst (ensure_tools_loaded example_world fresh_agent) = Inr ()
   \<and> needs_store (HDaily None None) fresh_agent
   \<and> map_sum id success
         (fst (run_handler example_given example_world None (HDaily None None) fresh_agent))
       = Inr True
   \<and> map_sum id data
         (fst (run_handler example_given example_world None (HDaily None None) fresh_agent))
       = Inr (Some RequiresStore)
   \<and> calls (snd (run_handler example_given example_world None (HDaily None None)
                    fresh_agent))
       = [LoadAnalyticsTools, ListStores]
   \<and> fst (ensure_tools_loaded world_tools_down fresh_agent) = Inl ''connection refused''
   \<and> fst (run_handler example_given world_tools_down None (HDaily None None) fresh_agent)
       = Inl ''connection refused''"
proof -
  have h: "fst (ensure_tools_loaded example_world fresh_agent) = Inr ()
           \<and> needs_store (HDaily None None) fresh_agent"
    by (simp add: fresh_agent_def effective_id_def ensure_tools_loaded_def
        example_world_def)
  have d: "fst (ensure_tools_loaded world_tools_down fresh_agent) = Inl ''connection refused''
           \<and> needs_store (HDaily None None) fresh_agent"
    by (simp add: fresh_agent_def effective_id_def ensure_tools_loaded_def
        world_tools_down_def)
  have c: "calls (load_store_cache example_world
                    (snd (ensure_tools_loaded example_world fresh_agent)))
           = [LoadAnalyticsTools, ListStores]"
    by (simp add: load_store_cache_def fresh_agent_def example_world_def
        call_list_stores_def ensure_tools_loaded_def)
  from store_context_required [of "HDaily None None" example_given]
  obtain pre post where
    "run_handler example_given example_world None (HDaily None None) fresh_agent =
       (Inr \<lparr>success = True,
             response = pre
               @ concat (map (\<lambda>name. nl @ sym_bullet @ '' '' @ title example_given name)
                   (take 5 (map fst (store_cache (load_store_cache example_world
                      (snd (ensure_tools_loaded example_world fresh_agent)))))))
               @ (if length (store_cache (load_store_cache example_world
                      (snd (ensure_tools_loaded example_world fresh_agent)))) > 5
                  then nl @ sym_bullet @ '' ... dan ''
                       @ dec_nat (length (store_cache (load_store_cache example_world
                           (snd (ensure_tools_loaded example_world fresh_agent)))) - 5)
                       @ '' toko lainnya''
                  else [])
               @ post,
             data = Some RequiresStore, error = None, ai_generated = False\<rparr>,
        load_store_cache example_world (snd (ensure_tools_loaded example_world fresh_agent)))"
    and "fst (run_handler example_given world_tools_down None (HDaily None None) fresh_agent)
         = Inl ''connection refused''"
    using h d unfolding Let_def by blast
  with h d c show ?thesis by simp
qed

text \<open>
  C4 as the specification words it: with an empty effective store id the handler would
  always return a response with \<open>success = True\<close>.  On an agent whose tools are not loaded
  yet, with the toolbox server down, the daily report raises.
\<close>

theorem store_context_tools_down_counterexample:
  "needs_store (HDaily None None) fresh_agent
   \<and> w_load_tools world_tools_down 0 = Some ''connection refused''
   \<and> run_handler example_given world_tools_down None (HDaily None None) fresh_agent
       = (Inl ''connection refused'', fresh_agent\<lparr>calls := [LoadAnalyticsTools]\<rparr>)"
  by (simp add: fresh_agent_def effective_id_def get_daily_report_def m_bind_def
      ensure_tools_loaded_def world_tools_down_def)

lemma ensure_ok_loaded:
  "fst (ensure_tools_loaded w s) = Inr () \<Longrightarrow> tools_loaded (snd (ensure_tools_loaded w s))"
  by (simp add: ensure_tools_loaded_def split: if_splits option.splits)

lemma run_handler_after_ensure:
  assumes ok: "fst (ensure_tools_loaded w s) = Inr ()"
    and "\<not> (\<exists>name. h = HStoreByName name)" "\<not> (\<exists>query. h = HComplex query)"
  shows "run_handler g w gem h s = run_handler g w gem h (snd (ensure_tools_loaded w s))"
proof -
  note l = ensure_ok_loaded [OF ok]
  have b: "m_bind (ensure_tools_loaded w) f s
           = m_bind (ensure_tools_loaded w) f (snd (ensure_tools_loaded w s))" for f
    by (simp add: bind_ensure_ok [OF ok] bind_ensure_loaded [OF l])
  from assms(2,3) show ?thesis
    by (cases h)
      (simp_all add: b get_daily_report_def get_weekly_report_def get_monthly_report_def
        compare_periods_def get_top_services_def get_peak_hours_def
        get_churned_customers_def get_inactive_customers_def get_customer_points_def
        get_points_summary_def list_stores_def)
qed

lemma raised_at_after_ensure:
  assumes "raised_at w s s' i e" "prefix (calls (snd (ensure_tools_loaded w s))) (calls s')"
  shows "raised_at w (snd (ensure_tools_loaded w s)) s' i e"
proof -
  from calls_ensure [of w s] show ?thesis
  proof
    assume "calls (snd (ensure_tools_loaded w s)) = calls s"
    with assms(1) show ?thesis by (simp add: raised_at_def)
  next
    assume c: "calls (snd (ensure_tools_loaded w s)) = calls s @ [LoadAnalyticsTools]"
    with assms(2) obtain zs where z: "calls s' = calls s @ [LoadAnalyticsTools] @ zs"
      by (auto simp: prefix_def)
    then have "calls s' ! length (calls s) = LoadAnalyticsTools"
      by (simp add: nth_append)
    with assms(1) have "i \<noteq> length (calls s)"
      by (auto simp: raised_at_def is_report_query_def)
    with assms(1) c show ?thesis by (auto simp: raised_at_def)
  qed
qed

lemma handler_prefix:
  assumes "tools_loaded s"
  shows "prefix (calls s) (calls (snd (run_handler g w gem h s)))"
proof -
  have t: "prefix (calls s) (calls (snd (try_except body
             (\<lambda>e. m_return (failure_response msg e)) s)))"
    if "qtracks w body" for body :: "('r response) step" and msg :: string
  proof -
    from that have "prefix (calls s) (calls (snd (body s)))"
      unfolding qtracks_def by blast
    then show ?thesis
      by (cases "body s"; cases "fst (body s)")
        (auto simp: try_except_def m_return_def split: sum.splits)
  qed
  note p = prefix_load_store_cache
  show ?thesis
  proof (cases h)
    case (HDaily date sid)
    with assms show ?thesis
      by (simp add: get_daily_report_def bind_ensure_loaded m_ask_result p t qtracks_daily)
  next
    case (HWeekly sid)
    with assms show ?thesis
      by (simp add: get_weekly_report_def bind_ensure_loaded m_ask_result p t qtracks_weekly)
  next
    case (HMonthly sid)
    with assms show ?thesis
      by (simp add: get_monthly_report_def bind_ensure_loaded m_ask_result p t
          qtracks_monthly)
  next
    case (HCompare x sid)
    with assms show ?thesis
      by (simp add: compare_periods_def bind_ensure_loaded m_ask_result p t qtracks_compare)
  next
    case (HTopServices days limit sid)
    with assms show ?thesis
      by (simp add: get_top_services_def bind_ensure_loaded t qtracks_top_services)
  next
    case (HPeakHours days sid)
    with assms show ?thesis
      by (simp add: get_peak_hours_def bind_ensure_loaded t qtracks_peak_hours)
  next
    case (HChurned days)
    with assms show ?thesis
      by (simp add: get_churned_customers_def bind_ensure_loaded t qtracks_churned)
  next
    case (HInactive days)
    with assms show ?thesis
      by (simp add: get_inactive_customers_def bind_ensure_loaded t qtracks_inactive)
  next
    case (HCustomerPoints phone)
    with assms show ?thesis
      by (simp add: get_customer_points_def bind_ensure_loaded t qtracks_customer_points)
  next
    case (HPointsSummary sid)
    with assms show ?thesis
      by (simp add: get_points_summary_def bind_ensure_loaded ask_points_store_state p t
          qtracks_points_summary)
  next
    case HListStores
    with assms show ?thesis
      by (simp add: list_stores_def bind_ensure_loaded t qtracks_list_stores)
  next
    case (HStoreByName name)
    then show ?thesis by (simp add: get_store_by_name_state p)
  next
    case (HComplex query)
    then show ?thesis
      by (cases gem) (simp_all add: handle_complex_query_def m_return_def t qtracks_complex)
  qed
qed

lemma handler_catches_without_tools:
  assumes "h = HStoreByName name \<or> h = HComplex query"
  shows "\<exists>r. fst (run_handler g w gem h s) = Inr r"
    and "raised_at w s (snd (run_handler g w gem h s)) i e \<Longrightarrow>
         fst (run_handler g w gem h s) = Inr (failure_response (failure_message h) e)"
proof -
  have "(\<exists>r. fst (run_handler g w gem h s) = Inr r)
        \<and> (raised_at w s (snd (run_handler g w gem h s)) i e \<longrightarrow>
           fst (run_handler g w gem h s) = Inr (failure_response (failure_message h) e))"
    using assms
  proof
    assume "h = HStoreByName name"
    then show ?thesis
      by (simp add: get_store_by_name_state get_store_by_name_result
          no_raise_load_store_cache)
  next
    assume c: "h = HComplex query"
    show ?thesis
    proof (cases gem)
      case None
      with c show ?thesis
        by (auto simp: handle_complex_query_def m_return_def raised_at_def)
    next
      case (Some client)
      with c show ?thesis
        by (simp add: handle_complex_query_def)
          (use try_except_catches [OF qtracks_complex] in blast)
    qed
  qed
  then show "\<exists>r. fst (run_handler g w gem h s) = Inr r"
    and "raised_at w s (snd (run_handler g w gem h s)) i e \<Longrightarrow>
         fst (run_handler g w gem h s) = Inr (failure_response (failure_message h) e)"
    by simp_all
qed

text \<open>
  C5 (as the code has it).  Once \<open>_ensure_tools_loaded\<close> has returned (the tools were
  loaded, or load now; the store lookup by name and the handler of complex queries do not
  call it), a handler never lets an exception out.  If one of its report queries raises
  \<open>e\<close>, the handler returns \<open>success = False\<close>, its failure message and \<open>error = e\<close>; so
  does the store listing when its fetch of the store list raises.  When loading the tools
  raises, in the first statement of the handler and before its \<open>try\<close> block, that
  exception leaves the handler.  An exception of the fetch that fills an empty store
  cache is swallowed by \<open>_load_store_cache\<close>: the cache stays empty and nothing is raised.
\<close>

theorem handlers_catch_query_exceptions:
  "((uses_tools h \<longrightarrow> fst (ensure_tools_loaded w s) = Inr ()) \<longrightarrow>
     (\<exists>r. fst (run_handler g w gem h s) = Inr r)
     \<and> (\<forall>i e. raised_at w s (snd (run_handler g w gem h s)) i e \<longrightarrow>
           fst (run_handler g w gem h s)
             = Inr \<lparr>success = False, response = failure_message h, data = None,
                    error = Some e, ai_generated = False\<rparr>)
     \<and> (h = HListStores
         \<and> w_list_stores w (length (calls (snd (ensure_tools_loaded w s)))) = Inl e1 \<longrightarrow>
           fst (run_handler g w gem h s)
             = Inr \<lparr>success = False, response = failure_message h, data = None,
                    error = Some e1, ai_generated = False\<rparr>))
   \<and> (uses_tools h \<and> fst (ensure_tools_loaded w s) = Inl e2 \<longrightarrow>
        run_handler g w gem h s = (Inl e2, snd (ensure_tools_loaded w s))
        \<and> calls (snd (ensure_tools_loaded w s)) = calls s @ [LoadAnalyticsTools])
   \<and> (store_cache s = [] \<and> w_list_stores w (length (calls s)) = Inl e3 \<longrightarrow>
        load_store_cache w s = s\<lparr>calls := calls s @ [ListStores]\<rparr>)"
proof (intro conjI impI)
  assume "uses_tools h \<and> fst (ensure_tools_loaded w s) = Inl e2"
  then show "run_handler g w gem h s = (Inl e2, snd (ensure_tools_loaded w s))"
    and "calls (snd (ensure_tools_loaded w s)) = calls s @ [LoadAnalyticsTools]"
    by (simp_all add: run_handler_tools_raise ensure_raises_calls)
next
  assume "store_cache s = [] \<and> w_list_stores w (length (calls s)) = Inl e3"
  then show "load_store_cache w s = s\<lparr>calls := calls s @ [ListStores]\<rparr>"
    by (simp add: load_store_cache_def call_list_stores_def)
next
  assume u: "uses_tools h \<longrightarrow> fst (ensure_tools_loaded w s) = Inr ()"
  define s1 where "s1 = snd (ensure_tools_loaded w s)"
  have all: "(\<exists>r. fst (run_handler g w gem h s) = Inr r)
     \<and> (\<forall>i e. raised_at w s (snd (run_handler g w gem h s)) i e \<longrightarrow>
           fst (run_handler g w gem h s)
             = Inr \<lparr>success = False, response = failure_message h, data = None,
                    error = Some e, ai_generated = False\<rparr>)
     \<and> (h = HListStores \<and> w_list_stores w (length (calls s1)) = Inl e1 \<longrightarrow>
           fst (run_handler g w gem h s)
             = Inr \<lparr>success = False, response = failure_message h, data = None,
                    error = Some e1, ai_generated = False\<rparr>)"
  proof (cases "(\<exists>name. h = HStoreByName name) \<or> (\<exists>query. h = HComplex query)")
    case True
    then obtain name query where "h = HStoreByName name \<or> h = HComplex query" by blast
    from handler_catches_without_tools [OF this, where g = g and w = w and gem = gem
        and s = s]
    show ?thesis
      using True by (auto simp: failure_response_def)
  next
    case False
    then have "uses_tools h" by (cases h) auto
    with u have ok: "fst (ensure_tools_loaded w s) = Inr ()" by simp
    have t: "tools_loaded s1" unfolding s1_def by (rule ensure_ok_loaded [OF ok])
    from False have eq: "run_handler g w gem h s = run_handler g w gem h s1"
      unfolding s1_def by (intro run_handler_after_ensure [OF ok]) auto
    have r: "fst (run_handler g w gem h s1)
               = Inr (failure_response (failure_message h) e)"
      if "raised_at w s (snd (run_handler g w gem h s1)) i e" for i e
    proof -
      from that handler_prefix [OF t, of g w gem h]
      have "raised_at w s1 (snd (run_handler g w gem h s1)) i e"
        unfolding s1_def by (rule raised_at_after_ensure)
      then show ?thesis by (rule handler_catches(2) [OF t])
    qed
    show ?thesis
      unfolding eq
      using handler_catches(1) [OF t, of g w gem h] r list_stores_fetch_raises [OF t, of w e1 g]
      by (auto simp: failure_response_def)
  qed
  from all show "\<exists>r. fst (run_handler g w gem h s) = Inr r" by blast
  from all show "\<forall>i e. raised_at w s (snd (run_handler g w gem h s)) i e \<longrightarrow>
           fst (run_handler g w gem h s)
             = Inr \<lparr>success = False, response = failure_message h, data = None,
                    error = Some e, ai_generated = False\<rparr>" by blast
  show "fst (run_handler g w gem h s)
             = Inr \<lparr>success = False, response = failure_message h, data = None,
                    error = Some e1, ai_generated = False\<rparr>"
    if "h = HListStores
         \<and> w_list_stores w (length (calls (snd (ensure_tools_loaded w s)))) = Inl e1"
    using that all unfolding s1_def by blast
qed

theorem handlers_catch_query_exceptions_witness:
  "uses_tools (HWeekly (Some ''toko-1''))
   \<and> fst (ensure_tools_loaded world_queries_down example_agent) = Inr ()
   \<and> fst (ensure_tools_loaded world_stores_down example_agent) = Inr ()
   \<and> raised_at world_queries_down example_agent
        (snd (run_handler example_given world_queries_down None (HWeekly (Some ''toko-1''))
               example_agent)) 0 ''connection refused''
   \<and> fst (run_handler example_given world_queries_down None (HWeekly (Some ''toko-1''))
            example_agent)
       = Inr \<lparr>success = False, response = ''Gagal mengambil laporan mingguan.'', data = None,
              error = Some ''connection refused'', ai_generated = False\<rparr>
   \<and> w_list_stores world_stores_down
         (length (calls (snd (ensure_tools_loaded world_stores_down example_agent))))
       = Inl ''connection refused''
   \<and> fst (run_handler example_given world_stores_down None HListStores example_agent)
       = Inr \<lparr>success = False, response = ''Gagal mengambil daftar toko dari database.'',
              data = None, error = Some ''connection refused'', ai_generated = False\<rparr>
   \<and> fst (ensure_tools_loaded world_tools_down fresh_agent) = Inl ''connection refused''
   \<and> fst (run_handler example_given world_tools_down None (HWeekly (Some ''toko-1''))
            fresh_agent)
       = Inl ''connection refused''
   \<and> store_cache example_agent = []
   \<and> w_list_stores world_stores_down (length (calls example_agent))
       = Inl ''connection refused''
   \<and> load_store_cache world_stores_down example_agent
       = example_agent\<lparr>calls := calls example_agent @ [ListStores]\<rparr>"
proof -
  have u: "uses_tools (HWeekly (Some ''toko-1''))" "uses_tools HListStores" by simp_all
  have s': "calls (snd (run_handler example_given world_queries_down None
                          (HWeekly (Some ''toko-1'')) example_agent))
            = [GetWeeklyRevenue ''toko-1'']"
    by (simp add: get_weekly_report_def ensure_tools_loaded_def effective_id_def
        try_except_def weekly_block_def m_bind_def call_query_def world_queries_down_def
        m_return_def example_agent_def)
  have r: "raised_at world_queries_down example_agent
        (snd (run_handler example_given world_queries_down None (HWeekly (Some ''toko-1''))
               example_agent)) 0 ''connection refused''"
    unfolding raised_at_def s'
    by (simp add: example_agent_def is_report_query_def world_queries_down_def)
  have l: "w_list_stores world_stores_down
             (length (calls (snd (ensure_tools_loaded world_stores_down example_agent))))
           = Inl ''connection refused''"
    by (simp add: world_stores_down_def)
  have e: "fst (ensure_tools_loaded world_queries_down example_agent) = Inr ()"
    "fst (ensure_tools_loaded world_stores_down example_agent) = Inr ()"
    by (simp_all add: ensure_tools_loaded_def example_agent_def)
  have d: "fst (ensure_tools_loaded world_tools_down fresh_agent) = Inl ''connection refused''"
    by (simp add: ensure_tools_loaded_def fresh_agent_def world_tools_down_def)
  have c: "store_cache example_agent = []"
    "w_list_stores world_stores_down (length (calls example_agent))
       = Inl ''connection refused''"
    by (simp_all add: example_agent_def world_stores_down_def)
  from u e r l d c
    handlers_catch_query_exceptions [where s = example_agent and g = example_given
      and w = world_queries_down and gem = None and h = "HWeekly (Some ''toko-1'')"]
    handlers_catch_query_exceptions [where s = example_agent and g = example_given
      and w = world_stores_down and gem = None and h = HListStores
      and ?e1.0 = "''connection refused''" and ?e3.0 = "''connection refused''"]
    handlers_catch_query_exceptions [where s = fresh_agent and g = example_given
      and w = world_tools_down and gem = None and h = "HWeekly (Some ''toko-1'')"
      and ?e2.0 = "''connection refused''"]
  show ?thesis by simp
qed

text \<open>
  C5 as the specification words it: every exception raised while a handler queries the
  data store would give \<open>success = False\<close> with the exception as \<open>error\<close>, and none would
  leave the handler.  When the fetch of the store list raises, the daily report without a
  store still answers with \<open>success = True\<close>, the weekly report of a store does too, and
  the store lookup by name gives no \<open>error\<close>.  When loading the tools raises, on an agent
  whose tools are not loaded yet, the weekly report raises.
\<close>

theorem store_fetch_failure_counterexample:
  "w_list_stores world_stores_down 0 = Inl ''connection refused''
   \<and> calls (snd (run_handler example_given world_stores_down None (HDaily None None)
                    example_agent)) = [ListStores]
   \<and> map_sum id success
         (fst (run_handler example_given world_stores_down None (HDaily None None)
                example_agent)) = Inr True
   \<and> map_sum id error
         (fst (run_handler example_given world_stores_down None (HDaily None None)
                example_agent)) = Inr None
   \<and> calls (snd (run_handler example_given world_stores_down None
                    (HWeekly (Some ''toko-1'')) example_agent))
       = [GetWeeklyRevenue ''toko-1'', ListStores]
   \<and> map_sum id success
         (fst (run_handler example_given world_stores_down None (HWeekly (Some ''toko-1''))
                example_agent)) = Inr True
   \<and> calls (snd (run_handler example_given world_stores_down None (HStoreByName ''sudirman'')
                    example_agent)) = [ListStores]
   \<and> map_sum id error
         (fst (run_handler example_given world_stores_down None (HStoreByName ''sudirman'')
                example_agent)) = Inr None
   \<and> w_load_tools world_tools_down 0 = Some ''connection refused''
   \<and> run_handler example_given world_tools_down None (HWeekly (Some ''toko-1''))
         fresh_agent
       = (Inl ''connection refused'', fresh_agent\<lparr>calls := [LoadAnalyticsTools]\<rparr>)"
  by (simp add: world_stores_down_def example_agent_def example_given_def
      world_tools_down_def fresh_agent_def
      get_daily_report_def get_weekly_report_def get_store_by_name_def
      m_bind_def ensure_tools_loaded_def effective_id_def m_ask_def
      ask_for_store_context_def load_store_cache_def call_list_stores_def Let_def
      try_except_def weekly_block_def call_query_def get_store_name_by_id_def
      m_lift_def m_return_def ok_response_def)

subsection \<open>The store cache\<close>

lemma dict_set_all:
  "list_all P kvs \<Longrightarrow> P (k, v) \<Longrightarrow> list_all P (dict_set k v kvs)"
  by (induction kvs) auto

lemma cache_normalized_ids:
  assumes "list_all (\<lambda>st. accepted_encoding (st_id st)) stores"
    and "list_all (\<lambda>(name, st). st_id st = VStr (format_uuid (st_id st))) cache"
  shows "list_all (\<lambda>(name, st). st_id st = VStr (format_uuid (st_id st)))
           (cache_normalized stores cache)"
  using assms
proof (induction stores arbitrary: cache)
  case Nil
  then show ?case by simp
next
  case (Cons st stores)
  from Cons.prems(1) have a: "accepted_encoding (st_id st)" by simp
  then have "length (format_uuid (st_id st)) = 36"
    by (simp add: accepted_digits length_dashed)
  then have "format_uuid (VStr (format_uuid (st_id st))) = format_uuid (st_id st)"
    by (rule format_uuid_str_36)
  with Cons.prems have "list_all (\<lambda>(name, st). st_id st = VStr (format_uuid (st_id st)))
      (dict_set (py_lower (st_name st)) (st\<lparr>st_id := VStr (format_uuid (st_id st))\<rparr>) cache)"
    by (intro dict_set_all) simp_all
  with Cons.IH [of "dict_set (py_lower (st_name st))
      (st\<lparr>st_id := VStr (format_uuid (st_id st))\<rparr>) cache"] Cons.prems(1)
  show ?case by simp
qed

lemma load_store_cache_ids_normalized:
  assumes "cache_ids_normalized s"
    and "\<And>stores. w_list_stores w (length (calls s)) = Inr stores \<Longrightarrow>
           list_all (\<lambda>st. accepted_encoding (st_id st)) stores"
  shows "cache_ids_normalized (load_store_cache w s)"
  using assms
  by (auto simp: load_store_cache_def cache_ids_normalized_def call_list_stores_def
      cache_normalized_ids split: sum.splits)

text \<open>
  C10 fails on \<open>list_stores\<close>.  From an empty, hence normalised, cache the store listing
  caches the store with the \<open>id\<close> as it came, 32 digits without dashes, which
  \<open>_format_uuid\<close> would change; \<open>_load_store_cache\<close> on the same answer caches the
  normalised \<open>id\<close>.
\<close>

theorem list_stores_caches_raw_id:
  "cache_ids_normalized example_agent
   \<and> accepted_encoding (st_id example_store)
   \<and> store_cache (snd (list_stores example_given example_world example_agent))
       = [(''laundry sudirman'', example_store)]
   \<and> st_id example_store = VStr ''29edf3ae6ac342b3abf890494dcdc7c5''
   \<and> format_uuid (st_id example_store) = ''29edf3ae-6ac3-42b3-abf8-90494dcdc7c5''
   \<and> \<not> cache_ids_normalized (snd (list_stores example_given example_world example_agent))
   \<and> cache_ids_normalized (load_store_cache example_world example_agent)"
  by code_simp

end
